theory Spec2Isabelle
  imports Main "HOL-Library.Word"
begin

section \<open>Data model\<close>

text \<open>
  The embedding follows \<^verbatim>\<open>entry.go\<close> and \<^verbatim>\<open>logger.go\<close>. Go values with
  reference semantics (the \<^verbatim>\<open>Fields\<close> map, \<^verbatim>\<open>*Entry\<close>, \<^verbatim>\<open>*bytes.Buffer\<close>) live in
  heaps: a reference is the index of the object in the heap list, allocation appends
  to the list. Indices below the length of a heap are the allocated (non-nil)
  references.
\<close>

type_synonym error = string

text \<open>
  The stack depth arguments are Go \<^verbatim>\<open>int\<close>s, 64 bits wide on the usual platforms:
  \<^verbatim>\<open>2 + depth\<close> and \<^verbatim>\<open>1 + depth\<close> wrap around as they do there.
\<close>

type_synonym goint = "64 word"

type_synonym bytes = string

text \<open>Values of type \<^verbatim>\<open>interface{}\<close> stored in a field map.\<close>

datatype val = IntV int | StrV string | ErrV error | NilV

text \<open>
  \<^verbatim>\<open>type Fields map[string]interface{}\<close>: the contents of a Go map, as the key/value
  pairs in the order a \<^verbatim>\<open>range\<close> loop happens to visit them. A Go map holds each key
  once.
\<close>

type_synonym Fields = "(string \<times> val) list"

text \<open>The map assignment \<^verbatim>\<open>data[k] = v\<close>.\<close>

fun assign :: "string \<Rightarrow> val \<Rightarrow> Fields \<Rightarrow> Fields" where
  "assign k v [] = [(k, v)]"
| "assign k v ((k', v') # m) =
     (if k' = k then (k, v) # m else (k', v') # assign k v m)"

text \<open>The loop \<^verbatim>\<open>for k, v := range src { data[k] = v }\<close>.\<close>

fun copy_into :: "Fields \<Rightarrow> Fields \<Rightarrow> Fields" where
  "copy_into [] data = data"
| "copy_into ((k, v) # src) data = copy_into src (assign k v data)"

type_synonym Level = nat

text \<open>
  Modelled from the spec: the severity constants of \<^verbatim>\<open>logrus.go\<close>, which is not
  among the source files. The spec orders them ascending from most severe to least
  severe, Panic < Fatal < Error < Warn < Info < Debug, Panic being the zero value.
\<close>

definition PanicLevel :: Level where "PanicLevel = 0"
definition FatalLevel :: Level where "FatalLevel = 1"
definition ErrorLevel :: Level where "ErrorLevel = 2"
definition WarnLevel :: Level where "WarnLevel = 3"
definition InfoLevel :: Level where "InfoLevel = 4"
definition DebugLevel :: Level where "DebugLevel = 5"

text \<open>
  \<^verbatim>\<open>type Entry struct\<close>. \<^verbatim>\<open>Data\<close> is the reference to the map object, \<^verbatim>\<open>Buffer\<close>
  the reference to a buffer (\<open>None\<close> is nil). The back-reference \<^verbatim>\<open>Logger\<close> always
  points to the one logger the operations below are run for, which they take as
  their first argument.
\<close>

record Entry =
  Data :: nat
  Time :: nat
  Level :: Level
  Message :: string
  FileName :: string
  Line :: int
  Buffer :: "nat option"

text \<open>What a call into the library leaves on its trace of effects.\<close>

datatype event =
    HookFired string
  | MuLock
  | MuUnlock
  | Stderr string
  | BufferGet nat
  | FormatCalled "nat option"
  | OutWrite bytes
  | BufferPut nat

text \<open>
  The program state: the heap of map objects, the heap of \<^verbatim>\<open>Entry\<close> objects, the
  logger's \<^verbatim>\<open>entryPool\<close>, the package's \<^verbatim>\<open>bufferPool\<close> with the heap of buffers, and
  the trace. A \<^verbatim>\<open>sync.Pool\<close> is a free list; of the behaviours it allows, the
  model takes the one of a single goroutine between two collections: \<^verbatim>\<open>Put\<close>
  pushes, \<^verbatim>\<open>Get\<close> pops what was put last and reports an empty pool. A
  \<^verbatim>\<open>sync.Pool\<close> may also hand out another item, or drop items.
\<close>

record world =
  fheap :: "Fields list"
  ents :: "Entry list"
  entryPool :: "nat list"
  bufs :: "bytes list"
  bufferPool :: "nat list"
  trace :: "event list"

text \<open>
  A hook (\<^verbatim>\<open>Fire(*Entry) error\<close>) is handed the address of a record. It reads the
  record and the contents of its field map, may assign to the fields of the record
  and write into the map (the way a hook adds fields), and returns an error or nil:
  \<open>hfire\<close> maps the record and the map contents to the record and the map contents
  it leaves, and its result.
\<close>

record hook =
  hname :: string
  hfire :: "Entry \<Rightarrow> Fields \<Rightarrow> Entry \<times> Fields \<times> error option"

text \<open>
  \<^verbatim>\<open>type Logger struct\<close>: the destination's \<^verbatim>\<open>Write\<close> (its error result), the hooks
  per level, the formatter (\<^verbatim>\<open>Format(*Entry) ([]byte, error)\<close>, which like a hook is
  handed the address of the record: the record and the map contents it leaves, and
  its result), the threshold
  \<^verbatim>\<open>Level\<close> (the field \<open>Threshold\<close> here, an \<^verbatim>\<open>Entry\<close> having a \<^verbatim>\<open>Level\<close> of its own) and
  the \<^verbatim>\<open>disabled\<close> flag of the \<^verbatim>\<open>MutexWrap\<close>. The pool is in the world.
\<close>

record Logger =
  Out :: "bytes \<Rightarrow> error option"
  Hooks :: "Level \<Rightarrow> hook list"
  Formatter :: "Entry \<Rightarrow> Fields \<Rightarrow> Entry \<times> Fields \<times> (error + bytes)"
  Threshold :: Level
  disabled :: bool

text \<open>
  What the host provides: the clock (\<^verbatim>\<open>time.Now().UTC()\<close>), the stack walk
  \<^verbatim>\<open>runtime.Caller(skip)\<close> seen from the dispatch routine (file and line, or \<open>None\<close>
  when \<^verbatim>\<open>ok\<close> is false), and the package variable \<^verbatim>\<open>ErrorKey\<close>.
\<close>

record env =
  now :: nat
  Caller :: "goint \<Rightarrow> (string \<times> int) option"
  ErrorKey :: string

text \<open>How a call ends: it returns, the process exits, or a panic unwinds.\<close>

datatype panic_value = PanicEntry Entry | PanicString string

datatype outcome = Returned | Exited int | Panicked panic_value

section \<open>Field attachment\<close>

text \<open>The zero \<^verbatim>\<open>Entry\<close> with the given map: \<^verbatim>\<open>&Entry{Logger: logger, Data: data}\<close>.\<close>

definition fresh_entry :: "nat \<Rightarrow> Entry" where
  "fresh_entry d =
     \<lparr>Data = d, Time = 0, Level = 0, Message = [], FileName = [], Line = 0, Buffer = None\<rparr>"

text \<open>\<^verbatim>\<open>NewEntry\<close>: a new map object (\<^verbatim>\<open>make(Fields, 5)\<close>) and a new \<^verbatim>\<open>Entry\<close>.\<close>

definition NewEntry :: "world \<Rightarrow> nat \<times> world" where
  "NewEntry s =
     (let d = length (fheap s);
          s = s\<lparr>fheap := fheap s @ [[]]\<rparr>;
          p = length (ents s)
      in (p, s\<lparr>ents := ents s @ [fresh_entry d]\<rparr>))"

text \<open>
  \<^verbatim>\<open>Entry.WithFields\<close>: a new map object filled by the two loops, and a new
  \<^verbatim>\<open>Entry\<close> that refers to it.
\<close>

definition Entry_WithFields :: "nat \<Rightarrow> Fields \<Rightarrow> world \<Rightarrow> nat \<times> world" where
  "Entry_WithFields entry flds s =
     (let data = [];
          data = copy_into (fheap s ! Data (ents s ! entry)) data;
          data = copy_into flds data;
          d = length (fheap s);
          s = s\<lparr>fheap := fheap s @ [data]\<rparr>;
          p = length (ents s)
      in (p, s\<lparr>ents := ents s @ [fresh_entry d]\<rparr>))"

definition Entry_WithField :: "nat \<Rightarrow> string \<Rightarrow> val \<Rightarrow> world \<Rightarrow> nat \<times> world" where
  "Entry_WithField entry key v s = Entry_WithFields entry [(key, v)] s"

definition Entry_WithError :: "env \<Rightarrow> nat \<Rightarrow> error \<Rightarrow> world \<Rightarrow> nat \<times> world" where
  "Entry_WithError ev entry err s = Entry_WithField entry (ErrorKey ev) (ErrV err) s"

text \<open>The contents of the field map of the \<^verbatim>\<open>Entry\<close> at a reference.\<close>

definition fields_of :: "world \<Rightarrow> nat \<Rightarrow> Fields" where
  "fields_of s p = fheap s ! Data (ents s ! p)"

section \<open>Dispatch\<close>

definition emit :: "event \<Rightarrow> world \<Rightarrow> world" where
  "emit e s = s\<lparr>trace := trace s @ [e]\<rparr>"

text \<open>\<^verbatim>\<open>MutexWrap.Lock\<close> and \<^verbatim>\<open>MutexWrap.Unlock\<close>: the mutex is taken unless disabled.\<close>

definition mu_Lock :: "Logger \<Rightarrow> world \<Rightarrow> world" where
  "mu_Lock lg s = (if \<not> disabled lg then emit MuLock s else s)"

definition mu_Unlock :: "Logger \<Rightarrow> world \<Rightarrow> world" where
  "mu_Unlock lg s = (if \<not> disabled lg then emit MuUnlock s else s)"

text \<open>
  \<^verbatim>\<open>strings.LastIndex(s, "/")\<close> for a one-character separator: the index of its last
  occurrence, or -1.
\<close>

fun LastIndex :: "string \<Rightarrow> char \<Rightarrow> int" where
  "LastIndex [] c = - 1"
| "LastIndex (x # xs) c =
     (let r = LastIndex xs c
      in if 0 \<le> r then r + 1 else if x = c then 0 else - 1)"

text \<open>
  Lines 100 to 114 of \<^verbatim>\<open>Entry.log\<close>, on its own copy of the receiver: time, level
  and message, then the caller's location.
\<close>

definition stamp :: "env \<Rightarrow> goint \<Rightarrow> Level \<Rightarrow> string \<Rightarrow> Entry \<Rightarrow> Entry" where
  "stamp ev depth level msg entry =
     (let entry = entry\<lparr>Time := now ev\<rparr>;
          entry = entry\<lparr>Level := level\<rparr>;
          entry = entry\<lparr>Message := msg\<rparr>
      in case Caller ev (2 + depth) of
           None \<Rightarrow> entry\<lparr>FileName := ''???'', Line := 1\<rparr>
         | Some (file, line) \<Rightarrow>
             (let slash = LastIndex file (CHR ''/'');
                  entry = (if 0 \<le> slash
                           then entry\<lparr>FileName := drop (nat (slash + 1)) file\<rparr>
                           else entry)
              in entry\<lparr>Line := line\<rparr>))"

text \<open>
  Modelled from the spec: \<^verbatim>\<open>LevelHooks.Fire\<close> of \<^verbatim>\<open>hooks.go\<close>, which is not among the
  source files. The hooks registered for the level run in registration order, each
  on the record as the hooks before it left it; the first one to return an error
  ends the firing and its error is returned. The routine passes the address of its
  copy (\<^verbatim>\<open>&entry\<close>), so the result holds the record as the hooks leave it, and what
  a hook writes into the map lands in the map object the record referred to.
\<close>

fun Fire :: "hook list \<Rightarrow> Entry \<Rightarrow> world \<Rightarrow> world \<times> Entry \<times> error option" where
  "Fire [] entry s = (s, entry, None)"
| "Fire (h # hs) entry s =
     (let (entry', m, err) = hfire h entry (fheap s ! Data entry);
          s = emit (HookFired (hname h)) (s\<lparr>fheap := (fheap s)[Data entry := m]\<rparr>)
      in case err of Some e \<Rightarrow> (s, entry', Some e) | None \<Rightarrow> Fire hs entry' s)"

text \<open>
  Lines 117 to 121: fire the hooks, report a failure on the diagnostic stream. The
  result is the record as the hooks leave it, and the state.
\<close>

definition fire_hooks :: "Logger \<Rightarrow> Level \<Rightarrow> Entry \<Rightarrow> world \<Rightarrow> Entry \<times> world" where
  "fire_hooks lg level entry s =
     (let (s, entry, err) = Fire (Hooks lg level) entry s
      in case err of
           None \<Rightarrow> (entry, s)
         | Some e \<Rightarrow>
             (entry,
              mu_Unlock lg (emit (Stderr (''Failed to fire hook: '' @ e @ [CHR 0x0A])) (mu_Lock lg s))))"

text \<open>\<^verbatim>\<open>bufferPool.Get()\<close> (its \<^verbatim>\<open>New\<close> allocates a buffer) and \<^verbatim>\<open>bufferPool.Put\<close>.\<close>

definition bufferPool_Get :: "world \<Rightarrow> nat \<times> world" where
  "bufferPool_Get s =
     (let (b, s) = (case bufferPool s of
                      b # bs \<Rightarrow> (b, s\<lparr>bufferPool := bs\<rparr>)
                    | [] \<Rightarrow> (length (bufs s), s\<lparr>bufs := bufs s @ [[]]\<rparr>))
      in (b, emit (BufferGet b) s))"

definition bufferPool_Put :: "nat \<Rightarrow> world \<Rightarrow> world" where
  "bufferPool_Put b s = emit (BufferPut b) (s\<lparr>bufferPool := b # bufferPool s\<rparr>)"

definition Reset :: "nat \<Rightarrow> world \<Rightarrow> world" where
  "Reset b s = s\<lparr>bufs := (bufs s)[b := []]\<rparr>"

text \<open>
  Lines 126 to 139: the formatter is called on the address of the record that
  carries the buffer, the buffer reference of the record is cleared, then either
  the failure is reported or the bytes are written under the lock. The result is
  the record as the routine holds it afterwards.
\<close>

definition render :: "Logger \<Rightarrow> Entry \<Rightarrow> world \<Rightarrow> Entry \<times> world" where
  "render lg entry s =
     (let s = emit (FormatCalled (Buffer entry)) s;
          (entry', m, r) = Formatter lg entry (fheap s ! Data entry);
          s = s\<lparr>fheap := (fheap s)[Data entry := m]\<rparr>;
          entry = entry'\<lparr>Buffer := None\<rparr>
      in case r of
           Inl err \<Rightarrow>
             (entry,
              mu_Unlock lg (emit (Stderr (''Failed to obtain reader, '' @ err @ [CHR 0x0A])) (mu_Lock lg s)))
         | Inr serialized \<Rightarrow>
             (let s = mu_Lock lg s;
                  s = emit (OutWrite serialized) s;
                  s = (case Out lg serialized of
                         Some err \<Rightarrow> emit (Stderr (''Failed to write to log, '' @ err @ [CHR 0x0A])) s
                       | None \<Rightarrow> s)
              in (entry, mu_Unlock lg s)))"

text \<open>
  Lines 99 to 125 of \<^verbatim>\<open>Entry.log\<close>: the routine works on \<open>entry\<close>, its own copy of
  the receiver; it stamps it, fires the hooks, takes a buffer from the pool, resets
  it and attaches it. The result is the buffer, the copy and the state at the
  moment the formatter is called.
\<close>

definition log_prepare ::
  "Logger \<Rightarrow> env \<Rightarrow> nat \<Rightarrow> goint \<Rightarrow> Level \<Rightarrow> string \<Rightarrow> world \<Rightarrow> nat \<times> Entry \<times> world" where
  "log_prepare lg ev p depth level msg s =
     (let entry = ents s ! p;
          entry = stamp ev depth level msg entry;
          (entry, s) = fire_hooks lg level entry s;
          (buffer, s) = bufferPool_Get s;
          s = Reset buffer s;
          entry = entry\<lparr>Buffer := Some buffer\<rparr>
      in (buffer, entry, s))"

text \<open>
  The body of \<^verbatim>\<open>Entry.log\<close> up to its last statement: the buffer it took, the record
  it holds and the state, before the deferred \<^verbatim>\<open>bufferPool.Put\<close> runs.
\<close>

definition log_body ::
  "Logger \<Rightarrow> env \<Rightarrow> nat \<Rightarrow> goint \<Rightarrow> Level \<Rightarrow> string \<Rightarrow> world \<Rightarrow> nat \<times> Entry \<times> world" where
  "log_body lg ev p depth level msg s =
     (let (buffer, entry, s) = log_prepare lg ev p depth level msg s;
          (entry, s) = render lg entry s
      in (buffer, entry, s))"

text \<open>
  \<^verbatim>\<open>Entry.log\<close>: the receiver is passed by value, so the routine works on a copy of
  the \<^verbatim>\<open>Entry\<close> at \<open>p\<close>. At Panic level it panics with the address of that copy; the
  deferred \<^verbatim>\<open>Put\<close> runs on return and on panic alike.
\<close>

definition log ::
  "Logger \<Rightarrow> env \<Rightarrow> nat \<Rightarrow> goint \<Rightarrow> Level \<Rightarrow> string \<Rightarrow> world \<Rightarrow> world \<times> outcome" where
  "log lg ev p depth level msg s =
     (let (buffer, entry, s) = log_body lg ev p depth level msg s;
          oc = (if level \<le> PanicLevel then Panicked (PanicEntry entry) else Returned)
      in (bufferPool_Put buffer s, oc))"

text \<open>Sequencing: the rest of a function body runs only if the call before it returned.\<close>

definition and_then :: "world \<times> outcome \<Rightarrow> (world \<Rightarrow> world \<times> outcome) \<Rightarrow> world \<times> outcome" where
  "and_then r f = (case r of (s, Returned) \<Rightarrow> f s | (s, oc) \<Rightarrow> (s, oc))"

text \<open>
  Modelled from the spec: \<^verbatim>\<open>Exit\<close> of \<^verbatim>\<open>alt_exit.go\<close>, which is not among the source
  files: the termination policy, which ends the process with the given status.
\<close>

definition Exit :: "int \<Rightarrow> world \<Rightarrow> world \<times> outcome" where
  "Exit code s = (s, Exited code)"

definition panic :: "panic_value \<Rightarrow> world \<Rightarrow> world \<times> outcome" where
  "panic v s = (s, Panicked v)"

section \<open>The calls on an Entry\<close>

text \<open>
  The receiver \<open>entry\<close> is the reference to the \<^verbatim>\<open>Entry\<close>; \<open>msg\<close> is what
  \<^verbatim>\<open>fmt.Sprint(args...)\<close> renders. \<^verbatim>\<open>entry.Logger.Level\<close> is the logger's threshold.
\<close>

definition Entry_Debug :: "Logger \<Rightarrow> env \<Rightarrow> nat \<Rightarrow> string \<Rightarrow> world \<Rightarrow> world \<times> outcome" where
  "Entry_Debug lg ev entry msg s =
     (if Threshold lg \<ge> DebugLevel then log lg ev entry 0 DebugLevel msg s else (s, Returned))"

definition Entry_Info :: "Logger \<Rightarrow> env \<Rightarrow> nat \<Rightarrow> string \<Rightarrow> world \<Rightarrow> world \<times> outcome" where
  "Entry_Info lg ev entry msg s =
     (if Threshold lg \<ge> InfoLevel then log lg ev entry 0 InfoLevel msg s else (s, Returned))"

definition Entry_Warn :: "Logger \<Rightarrow> env \<Rightarrow> nat \<Rightarrow> string \<Rightarrow> world \<Rightarrow> world \<times> outcome" where
  "Entry_Warn lg ev entry msg s =
     (if Threshold lg \<ge> WarnLevel then log lg ev entry 0 WarnLevel msg s else (s, Returned))"

definition Entry_Error :: "Logger \<Rightarrow> env \<Rightarrow> nat \<Rightarrow> string \<Rightarrow> world \<Rightarrow> world \<times> outcome" where
  "Entry_Error lg ev entry msg s =
     (if Threshold lg \<ge> ErrorLevel then log lg ev entry 0 ErrorLevel msg s else (s, Returned))"

definition Entry_Fatal :: "Logger \<Rightarrow> env \<Rightarrow> nat \<Rightarrow> string \<Rightarrow> world \<Rightarrow> world \<times> outcome" where
  "Entry_Fatal lg ev entry msg s =
     and_then
       (if Threshold lg \<ge> FatalLevel then log lg ev entry 0 FatalLevel msg s else (s, Returned))
       (Exit 1)"

definition Entry_Panic :: "Logger \<Rightarrow> env \<Rightarrow> nat \<Rightarrow> string \<Rightarrow> world \<Rightarrow> world \<times> outcome" where
  "Entry_Panic lg ev entry msg s =
     and_then
       (if Threshold lg \<ge> PanicLevel then log lg ev entry 0 PanicLevel msg s else (s, Returned))
       (panic (PanicString msg))"

definition Entry_DebugEx :: "Logger \<Rightarrow> env \<Rightarrow> nat \<Rightarrow> goint \<Rightarrow> string \<Rightarrow> world \<Rightarrow> world \<times> outcome" where
  "Entry_DebugEx lg ev entry depth msg s =
     (if Threshold lg \<ge> DebugLevel then log lg ev entry depth DebugLevel msg s else (s, Returned))"

definition Entry_InfoEx :: "Logger \<Rightarrow> env \<Rightarrow> nat \<Rightarrow> goint \<Rightarrow> string \<Rightarrow> world \<Rightarrow> world \<times> outcome" where
  "Entry_InfoEx lg ev entry depth msg s =
     (if Threshold lg \<ge> InfoLevel then log lg ev entry depth InfoLevel msg s else (s, Returned))"

definition Entry_WarnEx :: "Logger \<Rightarrow> env \<Rightarrow> nat \<Rightarrow> goint \<Rightarrow> string \<Rightarrow> world \<Rightarrow> world \<times> outcome" where
  "Entry_WarnEx lg ev entry depth msg s =
     (if Threshold lg \<ge> WarnLevel then log lg ev entry depth WarnLevel msg s else (s, Returned))"

definition Entry_ErrorEx :: "Logger \<Rightarrow> env \<Rightarrow> nat \<Rightarrow> goint \<Rightarrow> string \<Rightarrow> world \<Rightarrow> world \<times> outcome" where
  "Entry_ErrorEx lg ev entry depth msg s =
     (if Threshold lg \<ge> ErrorLevel then log lg ev entry depth ErrorLevel msg s else (s, Returned))"

definition Entry_FatalEx :: "Logger \<Rightarrow> env \<Rightarrow> nat \<Rightarrow> goint \<Rightarrow> string \<Rightarrow> world \<Rightarrow> world \<times> outcome" where
  "Entry_FatalEx lg ev entry depth msg s =
     and_then
       (if Threshold lg \<ge> FatalLevel then log lg ev entry depth FatalLevel msg s else (s, Returned))
       (Exit 1)"

definition Entry_PanicEx :: "Logger \<Rightarrow> env \<Rightarrow> nat \<Rightarrow> goint \<Rightarrow> string \<Rightarrow> world \<Rightarrow> world \<times> outcome" where
  "Entry_PanicEx lg ev entry depth msg s =
     and_then
       (if Threshold lg \<ge> PanicLevel then log lg ev entry depth PanicLevel msg s else (s, Returned))
       (panic (PanicString msg))"

section \<open>The calls on a Logger\<close>

text \<open>
  \<^verbatim>\<open>newEntry\<close> takes an \<^verbatim>\<open>Entry\<close> from the pool, or makes one when the pool gives
  none; \<^verbatim>\<open>releaseEntry\<close> puts it back as it is.
\<close>

definition newEntry :: "world \<Rightarrow> nat \<times> world" where
  "newEntry s =
     (case entryPool s of
        entry # rest \<Rightarrow> (entry, s\<lparr>entryPool := rest\<rparr>)
      | [] \<Rightarrow> NewEntry s)"

definition releaseEntry :: "nat \<Rightarrow> world \<Rightarrow> world" where
  "releaseEntry entry s = s\<lparr>entryPool := entry # entryPool s\<rparr>"

text \<open>The three attachment calls: the release is deferred, so it runs last.\<close>

definition Logger_WithField :: "string \<Rightarrow> val \<Rightarrow> world \<Rightarrow> nat \<times> world" where
  "Logger_WithField key v s =
     (let (entry, s) = newEntry s;
          (r, s) = Entry_WithField entry key v s
      in (r, releaseEntry entry s))"

definition Logger_WithFields :: "Fields \<Rightarrow> world \<Rightarrow> nat \<times> world" where
  "Logger_WithFields flds s =
     (let (entry, s) = newEntry s;
          (r, s) = Entry_WithFields entry flds s
      in (r, releaseEntry entry s))"

definition Logger_WithError :: "env \<Rightarrow> error \<Rightarrow> world \<Rightarrow> nat \<times> world" where
  "Logger_WithError ev err s =
     (let (entry, s) = newEntry s;
          (r, s) = Entry_WithError ev entry err s
      in (r, releaseEntry entry s))"

definition Logger_Debug :: "Logger \<Rightarrow> env \<Rightarrow> string \<Rightarrow> world \<Rightarrow> world \<times> outcome" where
  "Logger_Debug lg ev msg s =
     (if Threshold lg \<ge> DebugLevel
        then (let (entry, s) = newEntry s
              in and_then (Entry_DebugEx lg ev entry 1 msg s)
                   (\<lambda>s. (releaseEntry entry s, Returned)))
        else (s, Returned))"

definition Logger_Info :: "Logger \<Rightarrow> env \<Rightarrow> string \<Rightarrow> world \<Rightarrow> world \<times> outcome" where
  "Logger_Info lg ev msg s =
     (if Threshold lg \<ge> InfoLevel
        then (let (entry, s) = newEntry s
              in and_then (Entry_InfoEx lg ev entry 1 msg s)
                   (\<lambda>s. (releaseEntry entry s, Returned)))
        else (s, Returned))"

definition Logger_Warn :: "Logger \<Rightarrow> env \<Rightarrow> string \<Rightarrow> world \<Rightarrow> world \<times> outcome" where
  "Logger_Warn lg ev msg s =
     (if Threshold lg \<ge> WarnLevel
        then (let (entry, s) = newEntry s
              in and_then (Entry_WarnEx lg ev entry 1 msg s)
                   (\<lambda>s. (releaseEntry entry s, Returned)))
        else (s, Returned))"

definition Logger_Error :: "Logger \<Rightarrow> env \<Rightarrow> string \<Rightarrow> world \<Rightarrow> world \<times> outcome" where
  "Logger_Error lg ev msg s =
     (if Threshold lg \<ge> ErrorLevel
        then (let (entry, s) = newEntry s
              in and_then (Entry_ErrorEx lg ev entry 1 msg s)
                   (\<lambda>s. (releaseEntry entry s, Returned)))
        else (s, Returned))"

definition Logger_Fatal :: "Logger \<Rightarrow> env \<Rightarrow> string \<Rightarrow> world \<Rightarrow> world \<times> outcome" where
  "Logger_Fatal lg ev msg s =
     and_then
       (if Threshold lg \<ge> FatalLevel
        then (let (entry, s) = newEntry s
              in and_then (Entry_FatalEx lg ev entry 1 msg s)
                   (\<lambda>s. (releaseEntry entry s, Returned)))
        else (s, Returned))
       (Exit 1)"

definition Logger_Panic :: "Logger \<Rightarrow> env \<Rightarrow> string \<Rightarrow> world \<Rightarrow> world \<times> outcome" where
  "Logger_Panic lg ev msg s =
     (if Threshold lg \<ge> PanicLevel
        then (let (entry, s) = newEntry s
              in and_then (Entry_PanicEx lg ev entry 1 msg s)
                   (\<lambda>s. (releaseEntry entry s, Returned)))
        else (s, Returned))"

definition Logger_DebugEx :: "Logger \<Rightarrow> env \<Rightarrow> goint \<Rightarrow> string \<Rightarrow> world \<Rightarrow> world \<times> outcome" where
  "Logger_DebugEx lg ev depth msg s =
     (if Threshold lg \<ge> DebugLevel
        then (let (entry, s) = newEntry s
              in and_then (Entry_DebugEx lg ev entry (1 + depth) msg s)
                   (\<lambda>s. (releaseEntry entry s, Returned)))
        else (s, Returned))"

definition Logger_InfoEx :: "Logger \<Rightarrow> env \<Rightarrow> goint \<Rightarrow> string \<Rightarrow> world \<Rightarrow> world \<times> outcome" where
  "Logger_InfoEx lg ev depth msg s =
     (if Threshold lg \<ge> InfoLevel
        then (let (entry, s) = newEntry s
              in and_then (Entry_InfoEx lg ev entry (1 + depth) msg s)
                   (\<lambda>s. (releaseEntry entry s, Returned)))
        else (s, Returned))"

definition Logger_WarnEx :: "Logger \<Rightarrow> env \<Rightarrow> goint \<Rightarrow> string \<Rightarrow> world \<Rightarrow> world \<times> outcome" where
  "Logger_WarnEx lg ev depth msg s =
     (if Threshold lg \<ge> WarnLevel
        then (let (entry, s) = newEntry s
              in and_then (Entry_WarnEx lg ev entry (1 + depth) msg s)
                   (\<lambda>s. (releaseEntry entry s, Returned)))
        else (s, Returned))"

definition Logger_ErrorEx :: "Logger \<Rightarrow> env \<Rightarrow> goint \<Rightarrow> string \<Rightarrow> world \<Rightarrow> world \<times> outcome" where
  "Logger_ErrorEx lg ev depth msg s =
     (if Threshold lg \<ge> ErrorLevel
        then (let (entry, s) = newEntry s
              in and_then (Entry_ErrorEx lg ev entry (1 + depth) msg s)
                   (\<lambda>s. (releaseEntry entry s, Returned)))
        else (s, Returned))"

definition Logger_FatalEx :: "Logger \<Rightarrow> env \<Rightarrow> goint \<Rightarrow> string \<Rightarrow> world \<Rightarrow> world \<times> outcome" where
  "Logger_FatalEx lg ev depth msg s =
     and_then
       (if Threshold lg \<ge> FatalLevel
        then (let (entry, s) = newEntry s
              in and_then (Entry_FatalEx lg ev entry (1 + depth) msg s)
                   (\<lambda>s. (releaseEntry entry s, Returned)))
        else (s, Returned))
       (Exit 1)"

definition Logger_PanicEx :: "Logger \<Rightarrow> env \<Rightarrow> goint \<Rightarrow> string \<Rightarrow> world \<Rightarrow> world \<times> outcome" where
  "Logger_PanicEx lg ev depth msg s =
     (if Threshold lg \<ge> PanicLevel
        then (let (entry, s) = newEntry s
              in and_then (Entry_PanicEx lg ev entry (1 + depth) msg s)
                   (\<lambda>s. (releaseEntry entry s, Returned)))
        else (s, Returned))"

text \<open>\<^verbatim>\<open>Logger.SetNoLock\<close>: \<^verbatim>\<open>mu.Disable()\<close> sets the \<^verbatim>\<open>disabled\<close> flag.\<close>

definition SetNoLock :: "Logger \<Rightarrow> Logger" where
  "SetNoLock lg = lg\<lparr>disabled := True\<rparr>"

section \<open>Observations on a run\<close>

text \<open>The events a call added to the trace.\<close>

definition new_events :: "world \<Rightarrow> world \<Rightarrow> event list" where
  "new_events s s' = drop (length (trace s)) (trace s')"

fun is_hook :: "event \<Rightarrow> bool" where
  "is_hook (HookFired n) = True"
| "is_hook e = False"

fun is_format :: "event \<Rightarrow> bool" where
  "is_format (FormatCalled b) = True"
| "is_format e = False"

fun is_write :: "event \<Rightarrow> bool" where
  "is_write (OutWrite b) = True"
| "is_write e = False"

fun is_lock :: "event \<Rightarrow> bool" where
  "is_lock MuLock = True"
| "is_lock e = False"

fun is_put :: "event \<Rightarrow> bool" where
  "is_put (BufferPut b) = True"
| "is_put e = False"

definition formatter_ran :: "event list \<Rightarrow> bool" where
  "formatter_ran tr = list_ex is_format tr"

definition wrote :: "event list \<Rightarrow> bool" where
  "wrote tr = list_ex is_write tr"

definition silent :: "event list \<Rightarrow> bool" where
  "silent tr = (\<not> list_ex is_hook tr \<and> \<not> list_ex is_format tr \<and> \<not> list_ex is_write tr)"

text \<open>The events of a section the routine runs between \<^verbatim>\<open>mu.Lock()\<close> and \<^verbatim>\<open>mu.Unlock()\<close>.\<close>

definition locked :: "Logger \<Rightarrow> event list \<Rightarrow> event list" where
  "locked lg evs = (if disabled lg then evs else MuLock # evs @ [MuUnlock])"

text \<open>
  The events lines 126 to 139 leave, for a record and the contents of its field map:
  the formatter call, then the report of its failure or the write (and the report of
  a failed write), each under the lock.
\<close>

definition render_events :: "Logger \<Rightarrow> Entry \<Rightarrow> Fields \<Rightarrow> event list" where
  "render_events lg entry m =
     FormatCalled (Buffer entry) #
     (case snd (snd (Formatter lg entry m)) of
        Inl err \<Rightarrow> locked lg [Stderr (''Failed to obtain reader, '' @ err @ [CHR 0x0A])]
      | Inr serialized \<Rightarrow>
          locked lg (OutWrite serialized #
            (case Out lg serialized of
               Some err \<Rightarrow> [Stderr (''Failed to write to log, '' @ err @ [CHR 0x0A])]
             | None \<Rightarrow> [])))"

text \<open>The six severities and the level-named call of each, on an Entry and on a Logger.\<close>

datatype severity = Debug | Info | Warn | Error | Fatal | Panic

fun level_of :: "severity \<Rightarrow> Level" where
  "level_of Debug = DebugLevel"
| "level_of Info = InfoLevel"
| "level_of Warn = WarnLevel"
| "level_of Error = ErrorLevel"
| "level_of Fatal = FatalLevel"
| "level_of Panic = PanicLevel"

fun Entry_call :: "severity \<Rightarrow> Logger \<Rightarrow> env \<Rightarrow> nat \<Rightarrow> string \<Rightarrow> world \<Rightarrow> world \<times> outcome" where
  "Entry_call Debug = Entry_Debug"
| "Entry_call Info = Entry_Info"
| "Entry_call Warn = Entry_Warn"
| "Entry_call Error = Entry_Error"
| "Entry_call Fatal = Entry_Fatal"
| "Entry_call Panic = Entry_Panic"

fun Logger_call :: "severity \<Rightarrow> Logger \<Rightarrow> env \<Rightarrow> string \<Rightarrow> world \<Rightarrow> world \<times> outcome" where
  "Logger_call Debug = Logger_Debug"
| "Logger_call Info = Logger_Info"
| "Logger_call Warn = Logger_Warn"
| "Logger_call Error = Logger_Error"
| "Logger_call Fatal = Logger_Fatal"
| "Logger_call Panic = Logger_Panic"

text \<open>
  Severity in the spec's sense: the levels ascend from most severe to least severe,
  so \<open>a\<close> is at least as severe as \<open>b\<close> when its number is not above \<open>b\<close>'s.
\<close>

definition at_least_as_severe :: "Level \<Rightarrow> Level \<Rightarrow> bool" where
  "at_least_as_severe a b = (a \<le> b)"

text \<open>
  An \<^verbatim>\<open>Entry\<close> as \<^verbatim>\<open>NewEntry\<close> makes it, seen through its reference: allocated, with an
  allocated and empty field map and no buffer. A pool is clean when every \<^verbatim>\<open>Entry\<close>
  in it is.
\<close>

definition clean_entry :: "world \<Rightarrow> nat \<Rightarrow> bool" where
  "clean_entry s p =
     (p < length (ents s) \<and> Data (ents s ! p) < length (fheap s) \<and>
      fheap s ! Data (ents s ! p) = [] \<and> Buffer (ents s ! p) = None)"

definition pool_clean :: "world \<Rightarrow> bool" where
  "pool_clean s = list_all (clean_entry s) (entryPool s)"

section \<open>Concrete objects for the examples\<close>

text \<open>A state with one \<^verbatim>\<open>Entry\<close> (at reference 0) whose field map is empty.\<close>

definition ex_world :: world where
  "ex_world = \<lparr>fheap = [[]], ents = [fresh_entry 0], entryPool = [], bufs = [],
               bufferPool = [], trace = []\<rparr>"

text \<open>A freshly started program: nothing allocated, both pools empty.\<close>

definition init_world :: world where
  "init_world = \<lparr>fheap = [], ents = [], entryPool = [], bufs = [], bufferPool = [], trace = []\<rparr>"

definition ex_env :: env where
  "ex_env = \<lparr>now = 7,
             Caller = (\<lambda>skip. if skip = 2 then Some (''/src/app/main.go'', 42) else None),
             ErrorKey = ''error''\<rparr>"

text \<open>
  A hook that adds a field, a hook that fails, a hook that does neither, and a hook
  that assigns to the message of the record.
\<close>

definition rename_hook :: hook where
  "rename_hook = \<lparr>hname = ''rename'', hfire = (\<lambda>e m. (e\<lparr>Message := ''other''\<rparr>, m, None))\<rparr>"

definition tag_hook :: hook where
  "tag_hook = \<lparr>hname = ''tag'', hfire = (\<lambda>e m. (e, assign ''k'' (IntV 1) m, None))\<rparr>"

definition bad_hook :: hook where
  "bad_hook = \<lparr>hname = ''bad'', hfire = (\<lambda>e m. (e, m, Some ''boom''))\<rparr>"

definition idle_hook :: hook where
  "idle_hook = \<lparr>hname = ''idle'', hfire = (\<lambda>e m. (e, m, None))\<rparr>"

text \<open>
  A logger with the given threshold, hooks and formatter, whose destination accepts
  every write.
\<close>

definition ex_logger ::
  "Level \<Rightarrow> (Level \<Rightarrow> hook list) \<Rightarrow> (Entry \<Rightarrow> Fields \<Rightarrow> Entry \<times> Fields \<times> (error + bytes)) \<Rightarrow>
   Logger" where
  "ex_logger t hs f = \<lparr>Out = (\<lambda>b. None), Hooks = hs, Formatter = f, Threshold = t, disabled = False\<rparr>"

definition msg_formatter :: "Entry \<Rightarrow> Fields \<Rightarrow> Entry \<times> Fields \<times> (error + bytes)" where
  "msg_formatter e m = (e, m, Inr (Message e))"

definition failing_formatter :: "Entry \<Rightarrow> Fields \<Rightarrow> Entry \<times> Fields \<times> (error + bytes)" where
  "failing_formatter e m = (e, m, Inl ''no'')"

text \<open>
  A logger at threshold Info whose second hook fails, and one whose formatter fails.
\<close>

definition ex_logger_bad_hook :: Logger where
  "ex_logger_bad_hook =
     ex_logger InfoLevel (\<lambda>l. [idle_hook, bad_hook, tag_hook]) msg_formatter"

definition ex_logger_bad_format :: Logger where
  "ex_logger_bad_format = ex_logger InfoLevel (\<lambda>l. [idle_hook]) failing_formatter"

text \<open>A logger at threshold Info with the field-adding hook, and one with the idle hook.\<close>

definition ex_logger_tag :: Logger where
  "ex_logger_tag = ex_logger InfoLevel (\<lambda>l. [tag_hook]) msg_formatter"

definition ex_logger_idle :: Logger where
  "ex_logger_idle = ex_logger InfoLevel (\<lambda>l. [idle_hook]) msg_formatter"

text \<open>A logger whose hook assigns to the message, and one with locking disabled.\<close>

definition ex_logger_rename :: Logger where
  "ex_logger_rename = ex_logger InfoLevel (\<lambda>l. [rename_hook]) msg_formatter"

definition ex_logger_nolock :: Logger where
  "ex_logger_nolock = SetNoLock ex_logger_bad_hook"

text \<open>A host whose stack walk reports a file name without a directory part.\<close>

definition ex_env_bare :: env where
  "ex_env_bare = \<lparr>now = 7,
                  Caller = (\<lambda>skip. if skip = 2 then Some (''main.go'', 10) else None),
                  ErrorKey = ''error''\<rparr>"

text \<open>
  The two attachment examples: \<open>{a:1}\<close> then \<open>{a:2}\<close>, and \<open>{a:1, b:2}\<close> then \<open>{c:3}\<close>,
  each starting from the empty record of \<open>ex_world\<close>.
\<close>

definition ex_a1 :: "nat \<times> world" where
  "ex_a1 = Entry_WithFields 0 [(''a'', IntV 1)] ex_world"

definition ex_a1_a2 :: "nat \<times> world" where
  "ex_a1_a2 = Entry_WithFields (fst ex_a1) [(''a'', IntV 2)] (snd ex_a1)"

definition ex_ab :: "nat \<times> world" where
  "ex_ab = Entry_WithFields 0 [(''a'', IntV 1), (''b'', IntV 2)] ex_world"

definition ex_ab_c :: "nat \<times> world" where
  "ex_ab_c = Entry_WithFields (fst ex_ab) [(''c'', IntV 3)] (snd ex_ab)"

section \<open>Field maps\<close>

lemma map_of_assign: "map_of (assign k v m) = (map_of m)(k \<mapsto> v)"
  by (induction m) auto

lemma keys_assign: "fst ` set (assign k v m) = insert k (fst ` set m)"
  by (induction k v m rule: assign.induct) auto

lemma distinct_assign: "distinct (map fst m) \<Longrightarrow> distinct (map fst (assign k v m))"
  by (induction k v m rule: assign.induct) (auto simp: keys_assign)

lemma map_of_copy_into:
  "distinct (map fst src) \<Longrightarrow> map_of (copy_into src d) = map_of d ++ map_of src"
proof (induction src arbitrary: d)
  case Nil
  then show ?case by simp
next
  case (Cons kv src)
  obtain k v where kv: "kv = (k, v)" by (cases kv)
  from Cons.prems kv have fresh: "k \<notin> dom (map_of src)" and d: "distinct (map fst src)"
    by (auto simp: dom_map_of_conv_image_fst)
  have "map_of (copy_into (kv # src) d) = map_of (assign k v d) ++ map_of src"
    using Cons.IH [OF d] kv by simp
  also have "\<dots> = (map_of d)(k \<mapsto> v) ++ map_of src"
    by (simp only: map_of_assign)
  also have "\<dots> = map_of d ++ (map_of src)(k \<mapsto> v)"
    using fresh by (metis map_add_upd_left map_add_upd)
  also have "\<dots> = map_of d ++ map_of (kv # src)"
    unfolding kv by simp
  finally show ?case .
qed

lemma distinct_copy_into:
  "distinct (map fst d) \<Longrightarrow> distinct (map fst (copy_into src d))"
  by (induction src arbitrary: d) (auto simp: distinct_assign)

lemma fields_of_WithFields:
  "Entry_WithFields r m s = (r', s') \<Longrightarrow>
   fields_of s' r' = copy_into m (copy_into (fields_of s r) [])"
  by (auto simp: Entry_WithFields_def fields_of_def fresh_entry_def Let_def)

section \<open>The trace of the dispatch routine\<close>

lemma trace_emit [simp]: "trace (emit e s) = trace s @ [e]"
  by (simp add: emit_def)

lemma emit_fields [simp]:
  "fheap (emit e s) = fheap s" "ents (emit e s) = ents s" "entryPool (emit e s) = entryPool s"
  "bufs (emit e s) = bufs s" "bufferPool (emit e s) = bufferPool s"
  by (simp_all add: emit_def)

lemma trace_locked:
  "trace (mu_Unlock lg (emit e (mu_Lock lg s))) = trace s @ locked lg [e]"
  by (simp add: mu_Lock_def mu_Unlock_def locked_def)

lemma locked_frame:
  "fheap (mu_Unlock lg (emit e (mu_Lock lg s))) = fheap s"
  "ents (mu_Unlock lg (emit e (mu_Lock lg s))) = ents s"
  "entryPool (mu_Unlock lg (emit e (mu_Lock lg s))) = entryPool s"
  "bufs (mu_Unlock lg (emit e (mu_Lock lg s))) = bufs s"
  "bufferPool (mu_Unlock lg (emit e (mu_Lock lg s))) = bufferPool s"
  by (simp_all add: mu_Lock_def mu_Unlock_def)

lemma Fire_events:
  "\<exists>n. trace (fst (Fire hs e s)) = trace s @ map (\<lambda>h. HookFired (hname h)) (take n hs)"
proof (induction hs arbitrary: e s)
  case Nil
  then show ?case by simp
next
  case (Cons h hs)
  obtain e1 m err where hf: "hfire h e (fheap s ! Data e) = (e1, m, err)"
    by (cases "hfire h e (fheap s ! Data e)")
  define s1 where "s1 = emit (HookFired (hname h)) (s\<lparr>fheap := (fheap s)[Data e := m]\<rparr>)"
  show ?case
  proof (cases err)
    case None
    from Cons.IH [of e1 s1] obtain n where
      "trace (fst (Fire hs e1 s1)) = trace s1 @ map (\<lambda>h. HookFired (hname h)) (take n hs)" ..
    then have "trace (fst (Fire (h # hs) e s)) =
        trace s @ map (\<lambda>h. HookFired (hname h)) (take (Suc n) (h # hs))"
      using hf None by (simp add: s1_def)
    then show ?thesis ..
  next
    case (Some x)
    have "trace (fst (Fire (h # hs) e s)) =
        trace s @ map (\<lambda>h. HookFired (hname h)) (take (Suc 0) (h # hs))"
      using hf Some by simp
    then show ?thesis ..
  qed
qed

lemma Fire_frame:
  "ents (fst (Fire hs e s)) = ents s \<and> entryPool (fst (Fire hs e s)) = entryPool s \<and>
   bufs (fst (Fire hs e s)) = bufs s \<and> bufferPool (fst (Fire hs e s)) = bufferPool s \<and>
   length (fheap (fst (Fire hs e s))) = length (fheap s)"
  by (induction hs arbitrary: e s) (auto simp: Let_def split: prod.splits option.splits)

lemma fire_hooks_frame:
  "ents (snd (fire_hooks lg l e s)) = ents s \<and>
   entryPool (snd (fire_hooks lg l e s)) = entryPool s \<and>
   bufs (snd (fire_hooks lg l e s)) = bufs s \<and>
   bufferPool (snd (fire_hooks lg l e s)) = bufferPool s \<and>
   length (fheap (snd (fire_hooks lg l e s))) = length (fheap s)"
  using Fire_frame [of "Hooks lg l" e s]
  by (cases "Fire (Hooks lg l) e s")
    (auto simp: fire_hooks_def locked_frame split: option.splits)

lemma fire_hooks_events:
  "\<exists>evs. trace (snd (fire_hooks lg l e s)) = trace s @ evs \<and>
     \<not> list_ex is_format evs \<and> \<not> list_ex is_write evs \<and> \<not> list_ex is_put evs"
proof -
  obtain n where n: "trace (fst (Fire (Hooks lg l) e s)) =
      trace s @ map (\<lambda>h. HookFired (hname h)) (take n (Hooks lg l))"
    using Fire_events by blast
  obtain s1 e1 err where f: "Fire (Hooks lg l) e s = (s1, e1, err)"
    by (cases "Fire (Hooks lg l) e s")
  let ?hk = "map (\<lambda>h. HookFired (hname h)) (take n (Hooks lg l))"
  have quiet: "\<not> list_ex is_format ?hk \<and> \<not> list_ex is_write ?hk \<and> \<not> list_ex is_put ?hk"
    by (simp add: list_ex_iff)
  show ?thesis
  proof (cases err)
    case None
    then have "trace (snd (fire_hooks lg l e s)) = trace s @ ?hk"
      using f n by (simp add: fire_hooks_def)
    with quiet show ?thesis by blast
  next
    case (Some x)
    then have "trace (snd (fire_hooks lg l e s)) =
        trace s @ (?hk @ locked lg [Stderr (''Failed to fire hook: '' @ x @ [CHR 0x0A])])"
      using f n by (simp add: fire_hooks_def trace_locked)
    moreover have "\<not> list_ex is_format (?hk @ locked lg [Stderr (''Failed to fire hook: '' @ x @ [CHR 0x0A])])
      \<and> \<not> list_ex is_write (?hk @ locked lg [Stderr (''Failed to fire hook: '' @ x @ [CHR 0x0A])])
      \<and> \<not> list_ex is_put (?hk @ locked lg [Stderr (''Failed to fire hook: '' @ x @ [CHR 0x0A])])"
      by (simp add: list_ex_iff locked_def)
    ultimately show ?thesis by blast
  qed
qed

lemma render_trace:
  "trace (snd (render lg e s)) = trace s @ render_events lg e (fheap s ! Data e)"
  by (cases "Formatter lg e (fheap s ! Data e)")
    (auto simp: render_def render_events_def Let_def mu_Lock_def mu_Unlock_def locked_def
      split: sum.splits option.splits)

lemma render_frame:
  "ents (snd (render lg e s)) = ents s \<and> entryPool (snd (render lg e s)) = entryPool s \<and>
   bufs (snd (render lg e s)) = bufs s \<and> bufferPool (snd (render lg e s)) = bufferPool s \<and>
   length (fheap (snd (render lg e s))) = length (fheap s)"
  by (cases "Formatter lg e (fheap s ! Data e)")
    (auto simp: render_def Let_def mu_Lock_def mu_Unlock_def split: sum.splits option.splits)

lemma render_fheap:
  "fheap (snd (render lg e s)) =
     (fheap s)[Data e := fst (snd (Formatter lg e (fheap s ! Data e)))]"
  by (cases "Formatter lg e (fheap s ! Data e)")
    (auto simp: render_def Let_def mu_Lock_def mu_Unlock_def split: sum.splits option.splits)

lemma render_entry:
  "fst (render lg e s) = (fst (Formatter lg e (fheap s ! Data e)))\<lparr>Buffer := None\<rparr>"
  by (cases "Formatter lg e (fheap s ! Data e)")
    (auto simp: render_def Let_def split: sum.splits option.splits)

lemma log_prepare_result:
  assumes "log_prepare lg ev p depth level msg s = (b, e, s1)"
  shows "b = (case bufferPool s of b # bs \<Rightarrow> b | [] \<Rightarrow> length (bufs s))"
    and "e = (fst (fire_hooks lg level (stamp ev depth level msg (ents s ! p)) s))\<lparr>Buffer := Some b\<rparr>"
    and "trace s1 =
      trace (snd (fire_hooks lg level (stamp ev depth level msg (ents s ! p)) s)) @ [BufferGet b]"
    and "fheap s1 = fheap (snd (fire_hooks lg level (stamp ev depth level msg (ents s ! p)) s))"
    and "ents s1 = ents s" and "entryPool s1 = entryPool s"
    and "bufferPool s1 = tl (bufferPool s)"
  using assms fire_hooks_frame [of lg level "stamp ev depth level msg (ents s ! p)" s]
  by (auto simp: log_prepare_def Let_def bufferPool_Get_def Reset_def split: prod.splits list.splits)

lemma log_body_result:
  assumes "log_prepare lg ev p depth level msg s = (b, e, s1)"
  shows "log_body lg ev p depth level msg s =
     (b, (fst (Formatter lg e (fheap s1 ! Data e)))\<lparr>Buffer := None\<rparr>, snd (render lg e s1))"
  using assms render_entry [of lg e s1]
  by (cases "render lg e s1") (simp add: log_body_def)

lemma log_result:
  assumes "log_prepare lg ev p depth level msg s = (b, e, s1)"
  shows "log lg ev p depth level msg s =
     (bufferPool_Put b (snd (render lg e s1)),
      if level \<le> PanicLevel
      then Panicked (PanicEntry ((fst (Formatter lg e (fheap s1 ! Data e)))\<lparr>Buffer := None\<rparr>))
      else Returned)"
  by (simp add: log_def log_body_result [OF assms])

lemma log_trace:
  assumes "log_prepare lg ev p depth level msg s = (b, e, s1)"
  shows "trace (fst (log lg ev p depth level msg s)) =
     trace s1 @ render_events lg e (fheap s1 ! Data e) @ [BufferPut b]"
  by (simp add: log_result [OF assms] bufferPool_Put_def render_trace)

lemma log_prepare_events:
  assumes "log_prepare lg ev p depth level msg s = (b, e, s1)"
  shows "\<exists>evs. trace s1 = trace s @ evs \<and>
     \<not> list_ex is_format evs \<and> \<not> list_ex is_write evs \<and> \<not> list_ex is_put evs"
proof -
  obtain evs where evs:
    "trace (snd (fire_hooks lg level (stamp ev depth level msg (ents s ! p)) s)) = trace s @ evs"
    "\<not> list_ex is_format evs" "\<not> list_ex is_write evs" "\<not> list_ex is_put evs"
    using fire_hooks_events by blast
  have "trace s1 = trace s @ (evs @ [BufferGet b])"
    using log_prepare_result(3) [OF assms] evs(1) by simp
  moreover have "\<not> list_ex is_format (evs @ [BufferGet b]) \<and> \<not> list_ex is_write (evs @ [BufferGet b])
      \<and> \<not> list_ex is_put (evs @ [BufferGet b])"
    using evs by (simp add: list_ex_iff)
  ultimately show ?thesis by blast
qed

lemma render_events_format: "list_ex is_format (render_events lg e m)"
  by (simp add: render_events_def)

lemma render_events_write:
  "list_ex is_write (render_events lg e m) = (\<not> isl (snd (snd (Formatter lg e m))))"
  by (auto simp: render_events_def locked_def list_ex_iff split: sum.splits option.splits)

lemma render_events_put: "\<not> list_ex is_put (render_events lg e m)"
  by (auto simp: render_events_def locked_def list_ex_iff split: sum.splits option.splits)

lemma log_formatter_ran: "formatter_ran (new_events s (fst (log lg ev p depth level msg s)))"
proof -
  obtain b e s1 where lp: "log_prepare lg ev p depth level msg s = (b, e, s1)"
    by (cases "log_prepare lg ev p depth level msg s")
  obtain evs where "trace s1 = trace s @ evs" using log_prepare_events [OF lp] by blast
  then show ?thesis
    using render_events_format [of lg e "fheap s1 ! Data e"]
    by (simp add: formatter_ran_def new_events_def log_trace [OF lp])
qed

lemma log_outcome:
  "snd (log lg ev p depth level msg s) =
     (if level \<le> PanicLevel
      then Panicked (PanicEntry (fst (snd (log_body lg ev p depth level msg s))))
      else Returned)"
  by (simp add: log_def split: prod.splits)

lemma log_ents: "ents (fst (log lg ev p depth level msg s)) = ents s"
proof -
  obtain b e s1 where lp: "log_prepare lg ev p depth level msg s = (b, e, s1)"
    by (cases "log_prepare lg ev p depth level msg s")
  show ?thesis
    using render_frame [of lg e s1]
    by (simp add: log_result [OF lp] log_prepare_result(5) [OF lp] bufferPool_Put_def emit_def)
qed

lemma Message_stamp: "Message (stamp ev depth level msg e) = msg"
  by (simp add: stamp_def Let_def split: option.splits prod.splits)

lemma Data_stamp: "Data (stamp ev depth level msg e) = Data e"
  by (simp add: stamp_def Let_def split: option.splits prod.splits)

section \<open>Claims about field attachment\<close>

text \<open>
  C2. Attaching fields gives a new record whose field map is the union of the
  receiver's map and the supplied entries, the supplied entry winning where a key
  is in both. Attaching \<open>m1\<close> and then \<open>m2\<close> gives the map that attaching their
  right-biased union at once gives. The hypotheses say that the maps involved are
  Go maps (no key twice) and name the results of the three calls.
\<close>

theorem with_fields_union:
  assumes "distinct (map fst (fields_of s r))"
      and "distinct (map fst m1)" and "distinct (map fst m2)"
      and "Entry_WithFields r m1 s = (r1, s1)"
      and "Entry_WithFields r1 m2 s1 = (r2, s2)"
      and "Entry_WithFields r (copy_into m2 (copy_into m1 [])) s = (r3, s3)"
  shows "r1 = length (ents s) \<and>
         map_of (fields_of s1 r1) = map_of (fields_of s r) ++ map_of m1 \<and>
         map_of (fields_of s2 r2) = (map_of (fields_of s r) ++ map_of m1) ++ map_of m2 \<and>
         map_of (fields_of s3 r3) = map_of (fields_of s r) ++ (map_of m1 ++ map_of m2) \<and>
         map_of (fields_of s2 r2) = map_of (fields_of s3 r3)"
proof -
  have d0: "distinct (map fst ([] :: Fields))" by simp
  have base: "map_of (copy_into (fields_of s r) []) = map_of (fields_of s r)"
    using map_of_copy_into [OF assms(1), of "[]"] by simp
  have f1: "map_of (fields_of s1 r1) = map_of (fields_of s r) ++ map_of m1"
    using fields_of_WithFields [OF assms(4)] map_of_copy_into [OF assms(2)] base by simp
  have d1: "distinct (map fst (fields_of s1 r1))"
    using fields_of_WithFields [OF assms(4)] distinct_copy_into [OF distinct_copy_into [OF d0]]
    by simp
  have base1: "map_of (copy_into (fields_of s1 r1) []) = map_of (fields_of s1 r1)"
    using map_of_copy_into [OF d1, of "[]"] by simp
  have f2: "map_of (fields_of s2 r2) = (map_of (fields_of s r) ++ map_of m1) ++ map_of m2"
    using fields_of_WithFields [OF assms(5)] map_of_copy_into [OF assms(3)] base1 f1 by simp
  have dm: "distinct (map fst (copy_into m2 (copy_into m1 [])))"
    using distinct_copy_into [OF distinct_copy_into [OF d0]] by simp
  have m12: "map_of (copy_into m2 (copy_into m1 [])) = map_of m1 ++ map_of m2"
    using map_of_copy_into [OF assms(3)] map_of_copy_into [OF assms(2), of "[]"] by simp
  have f3: "map_of (fields_of s3 r3) = map_of (fields_of s r) ++ (map_of m1 ++ map_of m2)"
    using fields_of_WithFields [OF assms(6)] map_of_copy_into [OF dm] base m12 by simp
  have r1: "r1 = length (ents s)"
    using assms(4) by (auto simp: Entry_WithFields_def Let_def)
  show ?thesis using r1 f1 f2 f3 by simp
qed

text \<open>
  The two examples of C2: \<open>{a:1}\<close> then \<open>{a:2}\<close> has \<open>a:2\<close>, and \<open>{a:1, b:2}\<close> then
  \<open>{c:3}\<close> is \<open>{a:1, b:2, c:3}\<close>.
\<close>

theorem with_fields_union_witness:
  "map_of (fields_of (snd ex_a1_a2) (fst ex_a1_a2)) ''a'' = Some (IntV 2) \<and>
   map_of (fields_of (snd ex_ab_c) (fst ex_ab_c)) =
     [''a'' \<mapsto> IntV 1, ''b'' \<mapsto> IntV 2, ''c'' \<mapsto> IntV 3]"
proof -
  have e0: "fields_of ex_world 0 = []"
    by (simp add: fields_of_def ex_world_def fresh_entry_def)
  have d0: "distinct (map fst (fields_of ex_world 0))"
    by (simp add: e0)
  have p: "Entry_WithFields 0 m ex_world =
      (fst (Entry_WithFields 0 m ex_world), snd (Entry_WithFields 0 m ex_world))" for m
    by simp
  have a1: "Entry_WithFields 0 [(''a'', IntV 1)] ex_world = (fst ex_a1, snd ex_a1)"
    by (simp add: ex_a1_def)
  have a2: "Entry_WithFields (fst ex_a1) [(''a'', IntV 2)] (snd ex_a1) = (fst ex_a1_a2, snd ex_a1_a2)"
    by (simp add: ex_a1_a2_def)
  have ab: "Entry_WithFields 0 [(''a'', IntV 1), (''b'', IntV 2)] ex_world = (fst ex_ab, snd ex_ab)"
    by (simp add: ex_ab_def)
  have abc: "Entry_WithFields (fst ex_ab) [(''c'', IntV 3)] (snd ex_ab) = (fst ex_ab_c, snd ex_ab_c)"
    by (simp add: ex_ab_c_def)
  have "map_of (fields_of (snd ex_a1_a2) (fst ex_a1_a2)) =
      (map_of (fields_of ex_world 0) ++ map_of [(''a'', IntV 1)]) ++ map_of [(''a'', IntV 2)]"
    using with_fields_union [OF d0 _ _ a1 a2 p] by simp
  moreover have "map_of (fields_of (snd ex_ab_c) (fst ex_ab_c)) =
      (map_of (fields_of ex_world 0) ++ map_of [(''a'', IntV 1), (''b'', IntV 2)])
        ++ map_of [(''c'', IntV 3)]"
    using with_fields_union [OF d0 _ _ ab abc p] by simp
  ultimately show ?thesis by (auto simp: e0 fun_eq_iff)
qed

text \<open>
  C5. \<^verbatim>\<open>WithFields\<close>, \<^verbatim>\<open>WithField\<close> and \<^verbatim>\<open>WithError\<close> on the record at \<open>r1\<close> leave
  the contents of its field map and the record itself as they were, and return a
  reference to another record.
\<close>

theorem attachment_preserves_source:
  assumes "r1 < length (ents s)" and "Data (ents s ! r1) < length (fheap s)"
  shows "fields_of (snd (Entry_WithFields r1 m s)) r1 = fields_of s r1 \<and>
         fields_of (snd (Entry_WithField r1 k v s)) r1 = fields_of s r1 \<and>
         fields_of (snd (Entry_WithError ev r1 err s)) r1 = fields_of s r1 \<and>
         ents (snd (Entry_WithFields r1 m s)) ! r1 = ents s ! r1 \<and>
         ents (snd (Entry_WithField r1 k v s)) ! r1 = ents s ! r1 \<and>
         ents (snd (Entry_WithError ev r1 err s)) ! r1 = ents s ! r1 \<and>
         fst (Entry_WithFields r1 m s) \<noteq> r1 \<and>
         fst (Entry_WithField r1 k v s) \<noteq> r1 \<and>
         fst (Entry_WithError ev r1 err s) \<noteq> r1"
  using assms
  by (simp add: Entry_WithError_def Entry_WithField_def Entry_WithFields_def fields_of_def
      Let_def nth_append)

text \<open>
  The record \<open>{a:1}\<close> still has exactly \<open>a:1\<close> after each of the three calls on it.
\<close>

theorem attachment_preserves_source_witness:
  "fields_of (snd (Entry_WithFields (fst ex_a1) [(''a'', IntV 2)] (snd ex_a1))) (fst ex_a1) =
     [(''a'', IntV 1)] \<and>
   fields_of (snd (Entry_WithField (fst ex_a1) ''b'' (IntV 2) (snd ex_a1))) (fst ex_a1) =
     [(''a'', IntV 1)] \<and>
   fields_of (snd (Entry_WithError ex_env (fst ex_a1) ''eof'' (snd ex_a1))) (fst ex_a1) =
     [(''a'', IntV 1)]"
proof -
  have a1: "ex_a1 = (1, \<lparr>fheap = [[], [(''a'', IntV 1)]], ents = [fresh_entry 0, fresh_entry 1],
      entryPool = [], bufs = [], bufferPool = [], trace = []\<rparr>)"
    by (simp add: ex_a1_def Entry_WithFields_def ex_world_def fresh_entry_def Let_def)
  have f: "fields_of (snd ex_a1) (fst ex_a1) = [(''a'', IntV 1)]"
    by (simp add: a1 fields_of_def fresh_entry_def)
  have v: "fst ex_a1 < length (ents (snd ex_a1))"
    "Data (ents (snd ex_a1) ! fst ex_a1) < length (fheap (snd ex_a1))"
    by (simp_all add: a1 fresh_entry_def)
  show ?thesis
    using attachment_preserves_source [OF v, of "[(''a'', IntV 2)]" "''b''" "IntV 2" ex_env "''eof''"] f
    by simp
qed


section \<open>Claims about the terminal severities\<close>

lemma log_Fatal_returns: "snd (log lg ev p depth FatalLevel msg s) = Returned"
  by (simp add: log_outcome FatalLevel_def PanicLevel_def)

lemma and_then_Exit:
  "snd r = Returned \<Longrightarrow> and_then r (Exit c) = (fst r, Exited c)"
  by (cases r) (simp add: and_then_def Exit_def)

lemma and_then_eq:
  "and_then r f = (if snd r = Returned then f (fst r) else r)"
  by (cases r; cases "snd r") (auto simp: and_then_def)

lemma Entry_FatalEx_eq:
  "Entry_FatalEx lg ev p depth msg s =
     ((if Threshold lg \<ge> FatalLevel then fst (log lg ev p depth FatalLevel msg s) else s), Exited 1)"
  by (simp add: Entry_FatalEx_def and_then_Exit log_Fatal_returns)

text \<open>
  C3. For every threshold, \<^verbatim>\<open>Fatal\<close> and \<^verbatim>\<open>FatalEx\<close>, on an Entry and on a Logger, end
  in \<^verbatim>\<open>Exit(1)\<close>, reached in the state the dispatch left when the threshold enables
  Fatal and in the unchanged state when it does not (nothing is logged then).
\<close>

theorem fatal_always_exits:
  "Entry_Fatal lg ev p msg s =
     ((if Threshold lg \<ge> FatalLevel then fst (log lg ev p 0 FatalLevel msg s) else s), Exited 1) \<and>
   Entry_FatalEx lg ev p depth msg s =
     ((if Threshold lg \<ge> FatalLevel then fst (log lg ev p depth FatalLevel msg s) else s), Exited 1) \<and>
   Logger_Fatal lg ev msg s =
     ((if Threshold lg \<ge> FatalLevel
       then fst (log lg ev (fst (newEntry s)) 1 FatalLevel msg (snd (newEntry s))) else s), Exited 1) \<and>
   Logger_FatalEx lg ev depth msg s =
     ((if Threshold lg \<ge> FatalLevel
       then fst (log lg ev (fst (newEntry s)) (1 + depth) FatalLevel msg (snd (newEntry s))) else s),
      Exited 1)"
  by (simp add: Entry_Fatal_def Entry_FatalEx_eq Logger_Fatal_def Logger_FatalEx_def
      and_then_Exit log_Fatal_returns and_then_eq Exit_def split: prod.splits)

text \<open>
  At threshold Panic, \<^verbatim>\<open>Fatal\<close> exits with status 1 in the unchanged state; at
  threshold Info it exits with status 1 as well.
\<close>

theorem fatal_always_exits_witness:
  "Entry_Fatal (ex_logger PanicLevel (\<lambda>l. []) msg_formatter) ex_env 0 ''x'' ex_world =
     (ex_world, Exited 1) \<and>
   Logger_Fatal (ex_logger PanicLevel (\<lambda>l. []) msg_formatter) ex_env ''x'' ex_world =
     (ex_world, Exited 1) \<and>
   snd (Entry_Fatal ex_logger_idle ex_env 0 ''x'' ex_world) = Exited 1 \<and>
   snd (Logger_Fatal ex_logger_idle ex_env ''x'' ex_world) = Exited 1"
proof -
  have p: "\<not> Threshold (ex_logger PanicLevel (\<lambda>l. []) msg_formatter) \<ge> FatalLevel"
    by (simp add: ex_logger_def PanicLevel_def FatalLevel_def)
  note a = fatal_always_exits [where lg = "ex_logger PanicLevel (\<lambda>l. []) msg_formatter"
          and ev = ex_env and p = 0 and msg = "''x''" and s = ex_world, unfolded if_not_P [OF p]]
  note b = fatal_always_exits [where lg = ex_logger_idle and ev = ex_env and p = 0
          and msg = "''x''" and s = ex_world]
  have "Entry_Fatal (ex_logger PanicLevel (\<lambda>l. []) msg_formatter) ex_env 0 ''x'' ex_world =
      (ex_world, Exited 1)"
    using a by blast
  moreover have "Logger_Fatal (ex_logger PanicLevel (\<lambda>l. []) msg_formatter) ex_env ''x'' ex_world =
      (ex_world, Exited 1)"
    using a by blast
  moreover have "snd (Entry_Fatal ex_logger_idle ex_env 0 ''x'' ex_world) = Exited 1"
    using b [THEN conjunct1] by simp
  moreover have "snd (Logger_Fatal ex_logger_idle ex_env ''x'' ex_world) = Exited 1"
    using b [THEN conjunct2, THEN conjunct2, THEN conjunct1] by simp
  ultimately show ?thesis by simp
qed

lemma PanicLevel_least: "PanicLevel \<le> t"
  by (simp add: PanicLevel_def)

lemma log_Panic_outcome:
  "snd (log lg ev p depth PanicLevel msg s) =
     Panicked (PanicEntry (fst (snd (log_body lg ev p depth PanicLevel msg s))))"
  by (simp add: log_outcome)

lemma Entry_PanicEx_eq:
  "Entry_PanicEx lg ev p depth msg s = log lg ev p depth PanicLevel msg s"
  by (simp add: Entry_PanicEx_def and_then_eq log_Panic_outcome PanicLevel_least)

lemma Fire_keeps_Message:
  "\<forall>h\<in>set hs. \<forall>e m. Message (fst (hfire h e m)) = Message e \<Longrightarrow>
   Message (fst (snd (Fire hs e s))) = Message e"
proof (induction hs arbitrary: e s)
  case Nil
  then show ?case by simp
next
  case (Cons h hs)
  obtain e1 m err where hf: "hfire h e (fheap s ! Data e) = (e1, m, err)"
    by (cases "hfire h e (fheap s ! Data e)")
  with Cons.prems have e1: "Message e1 = Message e"
    by (metis fst_conv list.set_intros(1))
  define s1 where "s1 = emit (HookFired (hname h)) (s\<lparr>fheap := (fheap s)[Data e := m]\<rparr>)"
  have "Message (fst (snd (Fire hs e1 s1))) = Message e1"
    using Cons.IH Cons.prems by simp
  then show ?case
    using hf e1 by (cases err) (simp_all add: s1_def)
qed

lemma log_body_Message:
  assumes "\<forall>h\<in>set (Hooks lg level). \<forall>e m. Message (fst (hfire h e m)) = Message e"
      and "\<forall>e m. Message (fst (Formatter lg e m)) = Message e"
  shows "Message (fst (snd (log_body lg ev p depth level msg s))) = msg"
proof -
  obtain b e s1 where lp: "log_prepare lg ev p depth level msg s = (b, e, s1)"
    by (cases "log_prepare lg ev p depth level msg s")
  let ?st = "stamp ev depth level msg (ents s ! p)"
  have "Message (fst (fire_hooks lg level ?st s)) = Message ?st"
    using Fire_keeps_Message [OF assms(1), of ?st s]
    by (cases "Fire (Hooks lg level) ?st s") (auto simp: fire_hooks_def split: option.splits)
  then have "Message e = msg"
    using log_prepare_result(2) [OF lp] by (simp add: Message_stamp)
  then show ?thesis
    using assms(2) by (simp add: log_body_result [OF lp])
qed

lemma log_body_Buffer: "Buffer (fst (snd (log_body lg ev p depth level msg s))) = None"
proof -
  obtain b e s1 where lp: "log_prepare lg ev p depth level msg s = (b, e, s1)"
    by (cases "log_prepare lg ev p depth level msg s")
  show ?thesis by (simp add: log_body_result [OF lp])
qed

text \<open>
  C4, as the code has it. No threshold is below Panic, so for every threshold
  \<^verbatim>\<open>Panic\<close> and \<^verbatim>\<open>PanicEx\<close>, on an Entry and on a Logger, are the dispatch routine at
  Panic level. After its hook, format and write steps the routine panics, whether or
  not anything was written, and the value of the panic is its own copy of the
  record with the buffer reference cleared, never the message string. The message
  of that record is the formatted message when every hook registered for Panic and
  the formatter leave the message of the record they are handed as it is.
\<close>

theorem panic_always_raises:
  "Entry_Panic lg ev p msg s = log lg ev p 0 PanicLevel msg s \<and>
   Entry_PanicEx lg ev p depth msg s = log lg ev p depth PanicLevel msg s \<and>
   Logger_Panic lg ev msg s = log lg ev (fst (newEntry s)) 1 PanicLevel msg (snd (newEntry s)) \<and>
   Logger_PanicEx lg ev depth msg s =
     log lg ev (fst (newEntry s)) (1 + depth) PanicLevel msg (snd (newEntry s)) \<and>
   formatter_ran (new_events t (fst (log lg ev q d PanicLevel msg t))) \<and>
   snd (log lg ev q d PanicLevel msg t) =
     Panicked (PanicEntry (fst (snd (log_body lg ev q d PanicLevel msg t)))) \<and>
   Buffer (fst (snd (log_body lg ev q d PanicLevel msg t))) = None \<and>
   ((\<forall>h\<in>set (Hooks lg PanicLevel). \<forall>e m. Message (fst (hfire h e m)) = Message e) \<and>
    (\<forall>e m. Message (fst (Formatter lg e m)) = Message e) \<longrightarrow>
      Message (fst (snd (log_body lg ev q d PanicLevel msg t))) = msg)"
proof -
  have e1: "Entry_Panic lg ev p msg s = log lg ev p 0 PanicLevel msg s"
    by (simp add: Entry_Panic_def and_then_eq log_Panic_outcome PanicLevel_least)
  have e2: "Entry_PanicEx lg ev p depth msg s = log lg ev p depth PanicLevel msg s"
    by (rule Entry_PanicEx_eq)
  have l1: "Logger_Panic lg ev msg s =
      log lg ev (fst (newEntry s)) 1 PanicLevel msg (snd (newEntry s))"
    by (simp add: Logger_Panic_def Entry_PanicEx_eq and_then_eq log_Panic_outcome
        PanicLevel_least split: prod.splits)
  have l2: "Logger_PanicEx lg ev depth msg s =
      log lg ev (fst (newEntry s)) (1 + depth) PanicLevel msg (snd (newEntry s))"
    by (simp add: Logger_PanicEx_def Entry_PanicEx_eq and_then_eq log_Panic_outcome
        PanicLevel_least split: prod.splits)
  show ?thesis
    unfolding e1 e2 l1 l2
    by (simp add: log_formatter_ran log_Panic_outcome log_body_Buffer log_body_Message)
qed

text \<open>
  At threshold Panic with the idle hook and a formatter that fails, \<^verbatim>\<open>Panic\<close> writes
  nothing and panics with the stamped record, whose message is the one given.
\<close>

theorem panic_always_raises_witness:
  "snd (Entry_Panic (ex_logger PanicLevel (\<lambda>l. [idle_hook]) failing_formatter) ex_env 0 ''x'' ex_world) =
     Panicked (PanicEntry (fst (snd (log_body (ex_logger PanicLevel (\<lambda>l. [idle_hook]) failing_formatter)
       ex_env 0 0 PanicLevel ''x'' ex_world)))) \<and>
   Message (fst (snd (log_body (ex_logger PanicLevel (\<lambda>l. [idle_hook]) failing_formatter)
       ex_env 0 0 PanicLevel ''x'' ex_world))) = ''x'' \<and>
   \<not> wrote (new_events ex_world
       (fst (Entry_Panic (ex_logger PanicLevel (\<lambda>l. [idle_hook]) failing_formatter) ex_env 0 ''x'' ex_world)))"
proof -
  let ?lg = "ex_logger PanicLevel (\<lambda>l. [idle_hook]) failing_formatter"
  note t = panic_always_raises [where lg = ?lg and ev = ex_env and p = 0 and msg = "''x''"
      and s = ex_world and q = 0 and d = 0 and t = ex_world]
  have h: "(\<forall>h\<in>set (Hooks ?lg PanicLevel). \<forall>e m. Message (fst (hfire h e m)) = Message e) \<and>
      (\<forall>e m. Message (fst (Formatter ?lg e m)) = Message e)"
    by (simp add: ex_logger_def idle_hook_def failing_formatter_def)
  have e: "Entry_Panic ?lg ex_env 0 ''x'' ex_world = log ?lg ex_env 0 0 PanicLevel ''x'' ex_world"
    using t by blast
  have oc: "snd (log ?lg ex_env 0 0 PanicLevel ''x'' ex_world) =
      Panicked (PanicEntry (fst (snd (log_body ?lg ex_env 0 0 PanicLevel ''x'' ex_world))))"
    using t by blast
  have m: "Message (fst (snd (log_body ?lg ex_env 0 0 PanicLevel ''x'' ex_world))) = ''x''"
    using t h by blast
  have "trace (fst (log ?lg ex_env 0 0 PanicLevel ''x'' ex_world)) =
      [HookFired ''idle'', BufferGet 0, FormatCalled (Some 0), MuLock,
       Stderr (''Failed to obtain reader, no'' @ [CHR 0x0A]), MuUnlock, BufferPut 0]"
    by (simp add: ex_logger_def PanicLevel_def idle_hook_def
        log_def log_body_def log_prepare_def stamp_def fire_hooks_def render_def
        bufferPool_Get_def bufferPool_Put_def Reset_def emit_def mu_Lock_def mu_Unlock_def
        ex_env_def ex_world_def failing_formatter_def fresh_entry_def Let_def)
  then have "\<not> wrote (new_events ex_world (fst (log ?lg ex_env 0 0 PanicLevel ''x'' ex_world)))"
    by (simp add: wrote_def new_events_def ex_world_def)
  then show ?thesis
    unfolding e using oc m by simp
qed

text \<open>
  C4 as stated fails: with a hook that assigns to the message of the record it is
  handed, \<^verbatim>\<open>Panic\<close> with the message \<open>x\<close> panics with a record whose message is
  \<open>other\<close>; the value is the record, not the message string.
\<close>

theorem panic_always_raises_counterexample:
  "snd (Entry_Panic ex_logger_rename ex_env 0 ''x'' ex_world) =
     Panicked (PanicEntry \<lparr>Data = 0, Time = 7, Level = 0, Message = ''other'',
       FileName = ''main.go'', Line = 42, Buffer = None\<rparr>) \<and>
   snd (Entry_Panic ex_logger_rename ex_env 0 ''x'' ex_world) \<noteq> Panicked (PanicString ''x'')"
  by (simp add: Entry_Panic_def and_then_def ex_logger_rename_def ex_logger_def InfoLevel_def
      PanicLevel_def rename_hook_def
      log_def log_body_def log_prepare_def stamp_def fire_hooks_def render_def
      bufferPool_Get_def bufferPool_Put_def Reset_def emit_def mu_Lock_def mu_Unlock_def
      ex_env_def ex_world_def msg_formatter_def fresh_entry_def Let_def)

section \<open>The threshold gate\<close>

lemma trace_newEntry: "trace (snd (newEntry s)) = trace s"
  by (simp add: newEntry_def NewEntry_def Let_def split: list.splits)

lemma new_events_same: "new_events s s = []"
  by (simp add: new_events_def)

lemma silent_Nil: "silent []"
  by (simp add: silent_def)

lemma Entry_call_state:
  "fst (Entry_call S lg ev p msg s) =
     (if Threshold lg \<ge> level_of S then fst (log lg ev p 0 (level_of S) msg s) else s)"
  by (cases S)
    (simp_all add: Entry_Debug_def Entry_Info_def Entry_Warn_def Entry_Error_def Entry_Fatal_def
      Entry_Panic_def and_then_eq Exit_def panic_def)

lemma Logger_call_trace:
  "trace (fst (Logger_call S lg ev msg s)) =
     (if Threshold lg \<ge> level_of S
      then trace (fst (log lg ev (fst (newEntry s)) 1 (level_of S) msg (snd (newEntry s))))
      else trace s)"
  by (cases S)
    (simp_all add: Logger_Debug_def Logger_Info_def Logger_Warn_def Logger_Error_def
      Logger_Fatal_def Logger_Panic_def Entry_DebugEx_def Entry_InfoEx_def Entry_WarnEx_def
      Entry_ErrorEx_def Entry_FatalEx_def Entry_PanicEx_def and_then_eq Exit_def panic_def
      releaseEntry_def split: prod.splits)

lemma Logger_call_disabled:
  "\<not> Threshold lg \<ge> level_of S \<Longrightarrow> fst (Logger_call S lg ev msg s) = s"
  by (cases S)
    (simp_all add: Logger_Debug_def Logger_Info_def Logger_Warn_def Logger_Error_def
      Logger_Fatal_def Logger_Panic_def and_then_eq Exit_def)

text \<open>
  C1, as the code has it. A level-named call at severity \<open>S\<close>, on an Entry or on a
  Logger, runs the dispatch routine exactly when the threshold is numerically at
  least the level of \<open>S\<close>, that is, when \<open>S\<close> is at least as severe as the threshold.
  Then the state (for a Logger call, the trace) is the one the dispatch routine
  leaves and the formatter has run. Otherwise the state is unchanged: no hook
  fires, no formatter runs and nothing is written.
\<close>

theorem threshold_gate:
  "(if Threshold lg \<ge> level_of S
    then fst (Entry_call S lg ev p msg s) = fst (log lg ev p 0 (level_of S) msg s) \<and>
         formatter_ran (new_events s (fst (Entry_call S lg ev p msg s))) \<and>
         trace (fst (Logger_call S lg ev msg s)) =
           trace (fst (log lg ev (fst (newEntry s)) 1 (level_of S) msg (snd (newEntry s)))) \<and>
         formatter_ran (new_events s (fst (Logger_call S lg ev msg s)))
    else fst (Entry_call S lg ev p msg s) = s \<and>
         silent (new_events s (fst (Entry_call S lg ev p msg s))) \<and>
         fst (Logger_call S lg ev msg s) = s \<and>
         silent (new_events s (fst (Logger_call S lg ev msg s))))"
proof (cases "Threshold lg \<ge> level_of S")
  case True
  have "formatter_ran (new_events (snd (newEntry s))
      (fst (log lg ev (fst (newEntry s)) 1 (level_of S) msg (snd (newEntry s)))))"
    by (rule log_formatter_ran)
  then have "formatter_ran (new_events s (fst (Logger_call S lg ev msg s)))"
    using True by (simp add: new_events_def Logger_call_trace trace_newEntry)
  then show ?thesis
    using True by (simp add: Entry_call_state Logger_call_trace log_formatter_ran)
next
  case False
  then show ?thesis
    by (simp add: Entry_call_state Logger_call_disabled new_events_same silent_Nil)
qed

text \<open>
  At threshold Info: \<^verbatim>\<open>Warn\<close> is dispatched, on an Entry and on a Logger, and \<^verbatim>\<open>Debug\<close>
  leaves the state as it was.
\<close>

theorem threshold_gate_witness:
  "formatter_ran (new_events ex_world (fst (Entry_Warn ex_logger_idle ex_env 0 ''disk low'' ex_world))) \<and>
   formatter_ran (new_events ex_world (fst (Logger_Warn ex_logger_idle ex_env ''disk low'' ex_world))) \<and>
   fst (Entry_Debug ex_logger_idle ex_env 0 ''tick'' ex_world) = ex_world \<and>
   fst (Logger_Debug ex_logger_idle ex_env ''tick'' ex_world) = ex_world"
proof -
  have t: "Threshold ex_logger_idle = InfoLevel"
    by (simp add: ex_logger_idle_def ex_logger_def)
  have w: "Threshold ex_logger_idle \<ge> level_of Warn"
    by (simp add: t InfoLevel_def WarnLevel_def)
  have d: "\<not> Threshold ex_logger_idle \<ge> level_of Debug"
    by (simp add: t InfoLevel_def DebugLevel_def)
  have "formatter_ran (new_events ex_world (fst (Entry_call Warn ex_logger_idle ex_env 0 ''disk low'' ex_world))) \<and>
      formatter_ran (new_events ex_world (fst (Logger_call Warn ex_logger_idle ex_env ''disk low'' ex_world)))"
    using threshold_gate [where S = Warn and lg = ex_logger_idle and ev = ex_env and p = 0
          and msg = "''disk low''" and s = ex_world, unfolded if_P [OF w]]
    by blast
  moreover have "fst (Entry_call Debug ex_logger_idle ex_env 0 ''tick'' ex_world) = ex_world \<and>
      fst (Logger_call Debug ex_logger_idle ex_env ''tick'' ex_world) = ex_world"
    using threshold_gate [where S = Debug and lg = ex_logger_idle and ev = ex_env and p = 0
          and msg = "''tick''" and s = ex_world, unfolded if_not_P [OF d]]
    by blast
  ultimately show ?thesis by simp
qed

text \<open>
  C1 as stated fails in both directions. A threshold of Error is at least as severe
  as Debug, yet \<^verbatim>\<open>Debug\<close> is not dispatched; a threshold of Info is strictly less
  severe than Warn, yet \<^verbatim>\<open>Warn\<close> fires the hook, runs the formatter and writes.
\<close>

theorem threshold_gate_counterexample:
  "at_least_as_severe ErrorLevel DebugLevel \<and>
   \<not> formatter_ran (new_events ex_world
        (fst (Entry_Debug (ex_logger ErrorLevel (\<lambda>l. []) msg_formatter) ex_env 0 ''tick'' ex_world))) \<and>
   \<not> at_least_as_severe InfoLevel WarnLevel \<and>
   new_events ex_world
     (fst (Entry_Warn (ex_logger InfoLevel (\<lambda>l. [idle_hook]) msg_formatter) ex_env 0 ''disk low'' ex_world)) =
     [HookFired ''idle'', BufferGet 0, FormatCalled (Some 0), MuLock, OutWrite ''disk low'', MuUnlock,
      BufferPut 0]"
  by (simp add: at_least_as_severe_def ErrorLevel_def DebugLevel_def InfoLevel_def WarnLevel_def
      Entry_Debug_def Entry_Warn_def ex_logger_def new_events_def formatter_ran_def
      log_def log_body_def log_prepare_def stamp_def fire_hooks_def render_def
      bufferPool_Get_def bufferPool_Put_def Reset_def emit_def mu_Lock_def mu_Unlock_def
      ex_world_def ex_env_def idle_hook_def msg_formatter_def fresh_entry_def PanicLevel_def
      Let_def)


section \<open>Hook and formatter failures\<close>

lemma Fire_append:
  "Fire hs1 e s = (s1, e1, None) \<Longrightarrow> Fire (hs1 @ hs) e s = Fire hs e1 s1"
  by (induction hs1 arbitrary: e s) (auto simp: Let_def split: prod.splits option.splits)

lemma Fire_success_trace:
  "Fire hs e s = (s1, e1, None) \<Longrightarrow> trace s1 = trace s @ map (\<lambda>h. HookFired (hname h)) hs"
  by (induction hs arbitrary: e s) (auto simp: Let_def split: prod.splits option.splits)

lemma log_new_events:
  assumes "log_prepare lg ev p depth level msg s = (b, e, s1)"
  shows "new_events s (fst (log lg ev p depth level msg s)) =
     new_events s s1 @ render_events lg e (fheap s1 ! Data e) @ [BufferPut b]"
proof -
  obtain evs where "trace s1 = trace s @ evs" using log_prepare_events [OF assms] by blast
  then show ?thesis by (simp add: new_events_def log_trace [OF assms])
qed

lemma log_wrote:
  assumes "log_prepare lg ev p depth level msg s = (b, e, s1)"
  shows "wrote (new_events s (fst (log lg ev p depth level msg s))) =
     (\<not> isl (snd (snd (Formatter lg e (fheap s1 ! Data e)))))"
proof -
  obtain evs where evs: "trace s1 = trace s @ evs" "\<not> list_ex is_write evs"
    using log_prepare_events [OF assms] by blast
  then have "new_events s s1 = evs" by (simp add: new_events_def)
  then show ?thesis
    using evs(2) render_events_write [of lg e "fheap s1 ! Data e"]
    by (simp add: wrote_def log_new_events [OF assms])
qed

text \<open>
  C6, as the code has it. Let the hooks of the level be \<open>hs1 @ h # hs2\<close>, where the
  hooks of \<open>hs1\<close> succeed and \<open>h\<close> returns the error \<open>err\<close>. Then the dispatch routine
  fires \<open>hs1\<close> and \<open>h\<close> and none of \<open>hs2\<close>, and reports \<open>err\<close> on the diagnostic stream
  between \<^verbatim>\<open>mu.Lock()\<close> and \<^verbatim>\<open>mu.Unlock()\<close>: under the mutex unless the lock is
  disabled, and with no lock taken when it is. It goes on to take the buffer, call
  the formatter and write: the destination is written exactly when the formatter
  succeeds.
\<close>

theorem hook_failure_keeps_write:
  assumes "Hooks lg level = hs1 @ h # hs2"
      and "Fire hs1 (stamp ev depth level msg (ents s ! p)) s = (s1, e1, None)"
      and "hfire h e1 (fheap s1 ! Data e1) = (e2, m, Some err)"
      and "log_prepare lg ev p depth level msg s = (b, e, s2)"
  shows "new_events s (fst (log lg ev p depth level msg s)) =
           map (\<lambda>h. HookFired (hname h)) (hs1 @ [h])
           @ (if disabled lg
              then [Stderr (''Failed to fire hook: '' @ err @ [CHR 0x0A])]
              else [MuLock, Stderr (''Failed to fire hook: '' @ err @ [CHR 0x0A]), MuUnlock])
           @ [BufferGet b] @ render_events lg e (fheap s2 ! Data e) @ [BufferPut b] \<and>
         formatter_ran (new_events s (fst (log lg ev p depth level msg s))) \<and>
         wrote (new_events s (fst (log lg ev p depth level msg s))) =
           (\<not> isl (snd (snd (Formatter lg e (fheap s2 ! Data e)))))"
proof -
  let ?st = "stamp ev depth level msg (ents s ! p)"
  let ?report = "Stderr (''Failed to fire hook: '' @ err @ [CHR 0x0A])"
  have "Fire (Hooks lg level) ?st s = Fire (h # hs2) e1 s1"
    using Fire_append [OF assms(2)] assms(1) by simp
  also have "\<dots> = (emit (HookFired (hname h)) (s1\<lparr>fheap := (fheap s1)[Data e1 := m]\<rparr>), e2, Some err)"
    using assms(3) by simp
  finally have "trace (snd (fire_hooks lg level ?st s)) =
      trace s1 @ [HookFired (hname h)] @ locked lg [?report]"
    by (simp add: fire_hooks_def trace_locked)
  then have "trace s2 = trace s @ map (\<lambda>h. HookFired (hname h)) (hs1 @ [h])
      @ locked lg [?report] @ [BufferGet b]"
    using log_prepare_result(3) [OF assms(4)] Fire_success_trace [OF assms(2)] by simp
  then have "new_events s s2 = map (\<lambda>h. HookFired (hname h)) (hs1 @ [h])
      @ locked lg [?report] @ [BufferGet b]"
    by (simp add: new_events_def)
  moreover have "locked lg [?report] =
      (if disabled lg then [?report] else [MuLock, ?report, MuUnlock])"
    by (simp add: locked_def)
  ultimately show ?thesis
    using log_new_events [OF assms(4)] log_wrote [OF assms(4)]
      log_formatter_ran [of s lg ev p depth level msg]
    by simp
qed

text \<open>
  With the hooks idle, bad, tag and the lock enabled: idle and bad fire, tag does
  not, the failure is reported under the lock, and the message is written.
\<close>

theorem hook_failure_keeps_write_witness:
  "new_events ex_world (fst (log ex_logger_bad_hook ex_env 0 0 InfoLevel ''m'' ex_world)) =
     [HookFired ''idle'', HookFired ''bad'',
      MuLock, Stderr (''Failed to fire hook: boom'' @ [CHR 0x0A]), MuUnlock,
      BufferGet 0, FormatCalled (Some 0), MuLock, OutWrite ''m'', MuUnlock, BufferPut 0] \<and>
   wrote (new_events ex_world (fst (log ex_logger_bad_hook ex_env 0 0 InfoLevel ''m'' ex_world)))"
proof -
  let ?st = "stamp ex_env 0 InfoLevel ''m'' (ents ex_world ! 0)"
  let ?e = "?st\<lparr>Buffer := Some 0\<rparr>"
  let ?s2 = "\<lparr>fheap = [[]], ents = [fresh_entry 0], entryPool = [], bufs = [[]], bufferPool = [],
        trace = [HookFired ''idle'', HookFired ''bad'', MuLock,
                 Stderr (''Failed to fire hook: boom'' @ [CHR 0x0A]), MuUnlock, BufferGet 0]\<rparr>"
  have hooks: "Hooks ex_logger_bad_hook InfoLevel = [idle_hook] @ bad_hook # [tag_hook]"
    by (simp add: ex_logger_bad_hook_def ex_logger_def)
  have f1: "Fire [idle_hook] ?st ex_world = (emit (HookFired ''idle'') ex_world, ?st, None)"
    by (simp add: idle_hook_def ex_world_def emit_def Data_stamp fresh_entry_def Let_def)
  have f2: "hfire bad_hook ?st (fheap (emit (HookFired ''idle'') ex_world) ! Data ?st) =
      (?st, [], Some ''boom'')"
    by (simp add: bad_hook_def ex_world_def emit_def fresh_entry_def Data_stamp)
  have lp: "log_prepare ex_logger_bad_hook ex_env 0 0 InfoLevel ''m'' ex_world = (0, ?e, ?s2)"
    by (simp add: log_prepare_def ex_logger_bad_hook_def ex_logger_def fire_hooks_def
        idle_hook_def bad_hook_def ex_world_def emit_def bufferPool_Get_def Reset_def Let_def
        Data_stamp fresh_entry_def mu_Lock_def mu_Unlock_def)
  have r: "render_events ex_logger_bad_hook ?e m =
      [FormatCalled (Some 0), MuLock, OutWrite ''m'', MuUnlock]" for m
    by (simp add: render_events_def ex_logger_bad_hook_def ex_logger_def msg_formatter_def
        locked_def Message_stamp)
  have fm: "\<not> isl (snd (snd (Formatter ex_logger_bad_hook e m)))" for e m
    by (simp add: ex_logger_bad_hook_def ex_logger_def msg_formatter_def)
  have unl: "\<not> disabled ex_logger_bad_hook"
    by (simp add: ex_logger_bad_hook_def ex_logger_def)
  have names: "hname idle_hook = ''idle''" "hname bad_hook = ''bad''"
    by (simp_all add: idle_hook_def bad_hook_def)
  note t = hook_failure_keeps_write [OF hooks f1 f2 lp, unfolded if_not_P [OF unl]]
  have "new_events ex_world (fst (log ex_logger_bad_hook ex_env 0 0 InfoLevel ''m'' ex_world)) =
     [HookFired ''idle'', HookFired ''bad'',
      MuLock, Stderr (''Failed to fire hook: boom'' @ [CHR 0x0A]), MuUnlock,
      BufferGet 0, FormatCalled (Some 0), MuLock, OutWrite ''m'', MuUnlock, BufferPut 0]"
    using t [THEN conjunct1] by (simp add: r names)
  moreover have "wrote (new_events ex_world (fst (log ex_logger_bad_hook ex_env 0 0 InfoLevel ''m'' ex_world)))"
    using t [THEN conjunct2, THEN conjunct2] by (simp add: fm)
  ultimately show ?thesis by simp
qed

text \<open>
  C6 as stated fails for a logger whose lock has been disabled with \<^verbatim>\<open>SetNoLock\<close>:
  the failure of the hook is reported on the diagnostic stream, and the record is
  formatted and written, with no lock taken at any point.
\<close>

theorem hook_failure_keeps_write_counterexample:
  "new_events ex_world (fst (log ex_logger_nolock ex_env 0 0 InfoLevel ''m'' ex_world)) =
     [HookFired ''idle'', HookFired ''bad'',
      Stderr (''Failed to fire hook: boom'' @ [CHR 0x0A]),
      BufferGet 0, FormatCalled (Some 0), OutWrite ''m'', BufferPut 0] \<and>
   \<not> list_ex is_lock
       (new_events ex_world (fst (log ex_logger_nolock ex_env 0 0 InfoLevel ''m'' ex_world)))"
  by (simp add: ex_logger_nolock_def SetNoLock_def ex_logger_bad_hook_def ex_logger_def
      InfoLevel_def PanicLevel_def idle_hook_def bad_hook_def new_events_def
      log_def log_body_def log_prepare_def stamp_def fire_hooks_def render_def
      bufferPool_Get_def bufferPool_Put_def Reset_def emit_def mu_Lock_def mu_Unlock_def
      ex_env_def ex_world_def msg_formatter_def fresh_entry_def Let_def)

text \<open>
  C7. Let \<open>b\<close>, \<open>e\<close>, \<open>s1\<close> be the buffer, the record and the state at the formatter
  call; the record carries \<open>b\<close>. If the formatter fails, nothing is written and the
  failure is reported on the diagnostic stream under the lock. In both cases the body
  of the routine ends with the record as the formatter left it, its buffer reference
  cleared, and without having put the buffer back; the deferred \<^verbatim>\<open>Put\<close> is the last
  event and leaves \<open>b\<close> in the buffer pool.
\<close>

theorem formatter_failure_skips_write:
  assumes "log_prepare lg ev p depth level msg s = (b, e, s1)"
  shows "Buffer e = Some b \<and>
         (case snd (snd (Formatter lg e (fheap s1 ! Data e))) of
            Inl err \<Rightarrow>
              \<not> wrote (new_events s (fst (log lg ev p depth level msg s))) \<and>
              render_events lg e (fheap s1 ! Data e) =
                FormatCalled (Some b) #
                locked lg [Stderr (''Failed to obtain reader, '' @ err @ [CHR 0x0A])]
          | Inr serialized \<Rightarrow> wrote (new_events s (fst (log lg ev p depth level msg s)))) \<and>
         log_body lg ev p depth level msg s =
           (b, (fst (Formatter lg e (fheap s1 ! Data e)))\<lparr>Buffer := None\<rparr>, snd (render lg e s1)) \<and>
         Buffer (fst (snd (log_body lg ev p depth level msg s))) = None \<and>
         new_events s (snd (render lg e s1)) =
           new_events s s1 @ render_events lg e (fheap s1 ! Data e) \<and>
         \<not> list_ex is_put (new_events s (snd (render lg e s1))) \<and>
         fst (log lg ev p depth level msg s) = bufferPool_Put b (snd (render lg e s1)) \<and>
         new_events s (fst (log lg ev p depth level msg s)) =
           new_events s (snd (render lg e s1)) @ [BufferPut b] \<and>
         bufferPool (fst (log lg ev p depth level msg s)) = b # bufferPool s1"
proof -
  obtain evs where evs: "trace s1 = trace s @ evs" "\<not> list_ex is_put evs"
    using log_prepare_events [OF assms] by blast
  have buf: "Buffer e = Some b"
    using log_prepare_result(2) [OF assms] by simp
  have ne: "new_events s s1 = evs"
    using evs(1) by (simp add: new_events_def)
  have body: "new_events s (snd (render lg e s1)) =
      new_events s s1 @ render_events lg e (fheap s1 ! Data e)"
    using evs(1) by (simp add: new_events_def render_trace)
  have noput: "\<not> list_ex is_put (new_events s (snd (render lg e s1)))"
    using evs(2) render_events_put [of lg e "fheap s1 ! Data e"] by (simp add: body ne)
  have fmt: "case snd (snd (Formatter lg e (fheap s1 ! Data e))) of
            Inl err \<Rightarrow>
              \<not> wrote (new_events s (fst (log lg ev p depth level msg s))) \<and>
              render_events lg e (fheap s1 ! Data e) =
                FormatCalled (Some b) #
                locked lg [Stderr (''Failed to obtain reader, '' @ err @ [CHR 0x0A])]
          | Inr serialized \<Rightarrow> wrote (new_events s (fst (log lg ev p depth level msg s)))"
    using log_wrote [OF assms] buf by (simp add: render_events_def split: sum.splits)
  have pool: "bufferPool (fst (log lg ev p depth level msg s)) = b # bufferPool s1"
    using render_frame [of lg e s1] by (simp add: log_result [OF assms] bufferPool_Put_def)
  show ?thesis
    using buf fmt body noput pool log_new_events [OF assms]
    by (simp add: log_body_result [OF assms] log_result [OF assms])
qed

text \<open>
  With a formatter that fails: the trace has the report and no write, the buffer is
  back in the pool, and the record ends with a nil buffer reference.
\<close>

theorem formatter_failure_skips_write_witness:
  "new_events ex_world (fst (log ex_logger_bad_format ex_env 0 0 InfoLevel ''m'' ex_world)) =
     [HookFired ''idle'', BufferGet 0, FormatCalled (Some 0),
      MuLock, Stderr (''Failed to obtain reader, no'' @ [CHR 0x0A]), MuUnlock, BufferPut 0] \<and>
   \<not> wrote (new_events ex_world (fst (log ex_logger_bad_format ex_env 0 0 InfoLevel ''m'' ex_world))) \<and>
   bufferPool (fst (log ex_logger_bad_format ex_env 0 0 InfoLevel ''m'' ex_world)) = [0] \<and>
   Buffer (fst (snd (log_body ex_logger_bad_format ex_env 0 0 InfoLevel ''m'' ex_world))) = None"
proof -
  let ?e = "(stamp ex_env 0 InfoLevel ''m'' (fresh_entry 0))\<lparr>Buffer := Some 0\<rparr>"
  let ?s1 = "\<lparr>fheap = [[]], ents = [fresh_entry 0], entryPool = [], bufs = [[]], bufferPool = [],
        trace = [HookFired ''idle'', BufferGet 0]\<rparr>"
  have lp: "log_prepare ex_logger_bad_format ex_env 0 0 InfoLevel ''m'' ex_world = (0, ?e, ?s1)"
    by (simp add: log_prepare_def ex_logger_bad_format_def ex_logger_def fire_hooks_def
        idle_hook_def ex_world_def emit_def bufferPool_Get_def Reset_def Let_def Data_stamp
        fresh_entry_def)
  have ff: "Formatter ex_logger_bad_format e m = (e, m, Inl ''no'')" for e m
    by (simp add: ex_logger_bad_format_def ex_logger_def failing_formatter_def)
  have unl: "locked ex_logger_bad_format evs = MuLock # evs @ [MuUnlock]" for evs
    by (simp add: locked_def ex_logger_bad_format_def ex_logger_def)
  have ne: "new_events ex_world ?s1 = [HookFired ''idle'', BufferGet 0]"
    by (simp add: new_events_def ex_world_def)
  note t = formatter_failure_skips_write [OF lp]
  have fmt: "\<not> wrote (new_events ex_world (fst (log ex_logger_bad_format ex_env 0 0 InfoLevel ''m'' ex_world))) \<and>
      render_events ex_logger_bad_format ?e (fheap ?s1 ! Data ?e) =
        [FormatCalled (Some 0), MuLock, Stderr (''Failed to obtain reader, no'' @ [CHR 0x0A]), MuUnlock]"
    using t [THEN conjunct2, THEN conjunct1] by (simp add: ff unl)
  have nil: "Buffer (fst (snd (log_body ex_logger_bad_format ex_env 0 0 InfoLevel ''m'' ex_world))) = None"
    using t by blast
  have ev1: "new_events ex_world (snd (render ex_logger_bad_format ?e ?s1)) =
      new_events ex_world ?s1 @ render_events ex_logger_bad_format ?e (fheap ?s1 ! Data ?e)"
    using t by blast
  have ev2: "new_events ex_world (fst (log ex_logger_bad_format ex_env 0 0 InfoLevel ''m'' ex_world)) =
      new_events ex_world (snd (render ex_logger_bad_format ?e ?s1)) @ [BufferPut 0]"
    using t by blast
  have pool: "bufferPool (fst (log ex_logger_bad_format ex_env 0 0 InfoLevel ''m'' ex_world)) =
      0 # bufferPool ?s1"
    using t by blast
  have "new_events ex_world (fst (log ex_logger_bad_format ex_env 0 0 InfoLevel ''m'' ex_world)) =
     [HookFired ''idle'', BufferGet 0, FormatCalled (Some 0),
      MuLock, Stderr (''Failed to obtain reader, no'' @ [CHR 0x0A]), MuUnlock, BufferPut 0]"
    unfolding ev2 ev1 ne using fmt by simp
  then show ?thesis
    using fmt pool nil by simp
qed

section \<open>Caller location\<close>

lemma LastIndex_absent: "c \<notin> set xs \<Longrightarrow> LastIndex xs c = - 1"
  by (induction xs) (auto simp: Let_def)

lemma LastIndex_last:
  "c \<notin> set base \<Longrightarrow> LastIndex (dir @ c # base) c = int (length dir)"
  by (induction dir) (auto simp: Let_def LastIndex_absent)

lemma stamp_unresolved:
  "Caller ev (2 + depth) = None \<Longrightarrow>
   FileName (stamp ev depth level msg e) = ''???'' \<and> Line (stamp ev depth level msg e) = 1"
  by (simp add: stamp_def)

lemma stamp_resolved_with_slash:
  "Caller ev (2 + depth) = Some (dir @ CHR ''/'' # base, line) \<Longrightarrow> CHR ''/'' \<notin> set base \<Longrightarrow>
   FileName (stamp ev depth level msg e) = base \<and> Line (stamp ev depth level msg e) = line"
proof -
  assume c: "Caller ev (2 + depth) = Some (dir @ CHR ''/'' # base, line)"
    and b: "CHR ''/'' \<notin> set base"
  have "nat (int (length dir) + 1) = Suc (length dir)" by simp
  then have "drop (nat (LastIndex (dir @ CHR ''/'' # base) CHR ''/'' + 1)) (dir @ CHR ''/'' # base) = base"
    by (simp add: LastIndex_last [OF b])
  then show ?thesis
    using c by (simp add: stamp_def Let_def LastIndex_last [OF b])
qed

lemma stamp_resolved_without_slash:
  "Caller ev (2 + depth) = Some (file, line) \<Longrightarrow> CHR ''/'' \<notin> set file \<Longrightarrow>
   FileName (stamp ev depth level msg e) = FileName e \<and> Line (stamp ev depth level msg e) = line"
  by (simp add: stamp_def LastIndex_absent Let_def)

text \<open>
  C8 at a file name without a directory part. The stack walk succeeds with
  \<open>main.go\<close>, line 10; the line is stored, but the file name of the record is not set:
  it stays empty on a new record, and stays what it was on a record that had one.
\<close>

theorem caller_file_without_directory:
  "Caller ex_env_bare (2 + 0) = Some (''main.go'', 10) \<and>
   FileName (stamp ex_env_bare 0 InfoLevel ''m'' (fresh_entry 0)) = [] \<and>
   Line (stamp ex_env_bare 0 InfoLevel ''m'' (fresh_entry 0)) = 10 \<and>
   FileName (stamp ex_env_bare 0 InfoLevel ''m'' ((fresh_entry 0)\<lparr>FileName := ''old.go''\<rparr>)) = ''old.go''"
  by (simp add: stamp_def ex_env_bare_def fresh_entry_def Let_def)

section \<open>The pool and the caller's Entry\<close>

text \<open>
  C9 after one \<^verbatim>\<open>Info\<close> call on a Logger whose hook adds the field \<open>k\<close>. The call
  returns and releases its \<^verbatim>\<open>Entry\<close> to the pool; the next \<^verbatim>\<open>newEntry\<close> hands out that
  \<^verbatim>\<open>Entry\<close> with \<open>k\<close> in its field map, and \<^verbatim>\<open>Logger.WithField\<close> returns a record that
  holds \<open>k\<close> beside the field it was given.
\<close>

theorem pool_entry_retains_hook_field:
  "snd (Logger_Info ex_logger_tag ex_env ''first'' init_world) = Returned \<and>
   entryPool (fst (Logger_Info ex_logger_tag ex_env ''first'' init_world)) = [0] \<and>
   fst (newEntry (fst (Logger_Info ex_logger_tag ex_env ''first'' init_world))) = 0 \<and>
   fields_of (snd (newEntry (fst (Logger_Info ex_logger_tag ex_env ''first'' init_world)))) 0 =
     [(''k'', IntV 1)] \<and>
   fields_of (snd (Logger_WithField ''a'' (IntV 2) (fst (Logger_Info ex_logger_tag ex_env ''first'' init_world))))
     (fst (Logger_WithField ''a'' (IntV 2) (fst (Logger_Info ex_logger_tag ex_env ''first'' init_world)))) =
     [(''k'', IntV 1), (''a'', IntV 2)]"
proof -
  have run: "Logger_Info ex_logger_tag ex_env ''first'' init_world =
      (\<lparr>fheap = [[(''k'', IntV 1)]], ents = [fresh_entry 0], entryPool = [0], bufs = [[]],
        bufferPool = [0],
        trace = [HookFired ''tag'', BufferGet 0, FormatCalled (Some 0), MuLock,
                 OutWrite ''first'', MuUnlock, BufferPut 0]\<rparr>, Returned)"
    by (simp add: Logger_Info_def Entry_InfoEx_def ex_logger_tag_def ex_logger_def InfoLevel_def
        PanicLevel_def newEntry_def NewEntry_def releaseEntry_def and_then_def init_world_def
        log_def log_body_def log_prepare_def stamp_def fire_hooks_def render_def
        bufferPool_Get_def bufferPool_Put_def Reset_def emit_def mu_Lock_def mu_Unlock_def
        ex_env_def tag_hook_def msg_formatter_def fresh_entry_def Let_def)
  show ?thesis
    by (simp add: run newEntry_def fields_of_def fresh_entry_def Logger_WithField_def
        Entry_WithField_def Entry_WithFields_def releaseEntry_def Let_def)
qed

lemma Fire_keeps_fields:
  "\<forall>h\<in>set hs. \<forall>e m. fst (snd (hfire h e m)) = m \<Longrightarrow> fheap (fst (Fire hs e s)) = fheap s"
proof (induction hs arbitrary: e s)
  case Nil
  then show ?case by simp
next
  case (Cons h hs)
  obtain e1 m err where hf: "hfire h e (fheap s ! Data e) = (e1, m, err)"
    by (cases "hfire h e (fheap s ! Data e)")
  with Cons.prems have m: "m = fheap s ! Data e"
    by (metis fst_conv snd_conv list.set_intros(1))
  define s1 where "s1 = emit (HookFired (hname h)) (s\<lparr>fheap := (fheap s)[Data e := m]\<rparr>)"
  have s1: "fheap s1 = fheap s" by (simp add: s1_def m)
  have "fheap (fst (Fire hs e1 s1)) = fheap s1"
    using Cons.IH Cons.prems by simp
  then show ?case
    using hf s1 by (cases err) (simp_all add: s1_def)
qed

lemma log_keeps_fields:
  assumes "\<forall>h\<in>set (Hooks lg level). \<forall>e m. fst (snd (hfire h e m)) = m"
      and "\<forall>e m. fst (snd (Formatter lg e m)) = m"
  shows "fheap (fst (log lg ev p depth level msg s)) = fheap s"
proof -
  obtain b e s1 where lp: "log_prepare lg ev p depth level msg s = (b, e, s1)"
    by (cases "log_prepare lg ev p depth level msg s")
  let ?st = "stamp ev depth level msg (ents s ! p)"
  have "fheap (snd (fire_hooks lg level ?st s)) = fheap s"
    using Fire_keeps_fields [OF assms(1), of ?st s]
    by (cases "Fire (Hooks lg level) ?st s")
      (auto simp: fire_hooks_def locked_frame split: option.splits)
  then have "fheap s1 = fheap s"
    using log_prepare_result(4) [OF lp] by simp
  then show ?thesis
    using assms(2) by (simp add: log_result [OF lp] bufferPool_Put_def render_fheap)
qed

text \<open>
  C10, as the code has it. A severity call on the \<^verbatim>\<open>Entry\<close> at \<open>p\<close> leaves every
  \<^verbatim>\<open>Entry\<close> object as it was: the reference to the field map, time, level, message,
  file name, line and buffer reference of the caller's \<^verbatim>\<open>Entry\<close> are unchanged, whatever
  the hooks and the formatter do to the copy they are handed. The contents of the
  field maps are unchanged when every hook registered for the level and the
  formatter never change the contents of a map they are handed.
\<close>

theorem dispatch_keeps_entry:
  "ents (fst (Entry_call S lg ev p msg s)) = ents s \<and>
   ((\<forall>h\<in>set (Hooks lg (level_of S)). \<forall>e m. fst (snd (hfire h e m)) = m) \<and>
    (\<forall>e m. fst (snd (Formatter lg e m)) = m) \<longrightarrow>
      fheap (fst (Entry_call S lg ev p msg s)) = fheap s)"
  by (simp add: Entry_call_state log_ents log_keeps_fields)

text \<open>
  With the idle hook, an enabled \<^verbatim>\<open>Info\<close> call returns, the formatter has run, and the
  \<^verbatim>\<open>Entry\<close> and its empty field map are as before.
\<close>

theorem dispatch_keeps_entry_witness:
  "snd (Entry_call Info ex_logger_idle ex_env 0 ''x'' ex_world) = Returned \<and>
   ents (fst (Entry_call Info ex_logger_idle ex_env 0 ''x'' ex_world)) ! 0 = fresh_entry 0 \<and>
   fields_of (fst (Entry_call Info ex_logger_idle ex_env 0 ''x'' ex_world)) 0 = [] \<and>
   formatter_ran (new_events ex_world (fst (Entry_call Info ex_logger_idle ex_env 0 ''x'' ex_world)))"
proof -
  have h: "(\<forall>h\<in>set (Hooks ex_logger_idle (level_of Info)). \<forall>e m. fst (snd (hfire h e m)) = m) \<and>
      (\<forall>e m. fst (snd (Formatter ex_logger_idle e m)) = m)"
    by (simp add: ex_logger_idle_def ex_logger_def idle_hook_def msg_formatter_def)
  have en: "Threshold ex_logger_idle \<ge> level_of Info"
    by (simp add: ex_logger_idle_def ex_logger_def)
  have oc: "snd (Entry_call Info ex_logger_idle ex_env 0 ''x'' ex_world) = Returned"
    by (simp add: Entry_Info_def en [simplified] log_outcome InfoLevel_def PanicLevel_def)
  have ran: "formatter_ran (new_events ex_world (fst (Entry_call Info ex_logger_idle ex_env 0 ''x'' ex_world)))"
    using en Entry_call_state [of Info ex_logger_idle ex_env 0 "''x''" ex_world]
    by (simp add: log_formatter_ran)
  note t = dispatch_keeps_entry [where S = Info and lg = ex_logger_idle and ev = ex_env and p = 0
      and msg = "''x''" and s = ex_world]
  have "ents (fst (Entry_call Info ex_logger_idle ex_env 0 ''x'' ex_world)) = ents ex_world"
    using t by blast
  moreover have "fheap (fst (Entry_call Info ex_logger_idle ex_env 0 ''x'' ex_world)) = fheap ex_world"
    using t h by blast
  ultimately show ?thesis
    using oc ran by (simp add: fields_of_def ex_world_def fresh_entry_def)
qed

text \<open>
  C10 as stated fails for the field map: the routine's copy of the \<^verbatim>\<open>Entry\<close> shares
  the map with the caller's \<^verbatim>\<open>Entry\<close>, so after an \<^verbatim>\<open>Info\<close> call that returns, the
  field a hook added is in the caller's field map.
\<close>

theorem dispatch_keeps_entry_counterexample:
  "snd (Entry_Info ex_logger_tag ex_env 0 ''x'' ex_world) = Returned \<and>
   fields_of ex_world 0 = [] \<and>
   fields_of (fst (Entry_Info ex_logger_tag ex_env 0 ''x'' ex_world)) 0 = [(''k'', IntV 1)]"
  by (simp add: Entry_Info_def ex_logger_tag_def ex_logger_def InfoLevel_def
        PanicLevel_def fields_of_def
        log_def log_body_def log_prepare_def stamp_def fire_hooks_def render_def
        bufferPool_Get_def bufferPool_Put_def Reset_def emit_def mu_Lock_def mu_Unlock_def
        ex_env_def ex_world_def tag_hook_def msg_formatter_def fresh_entry_def Let_def)

section \<open>When the pool stays clean\<close>

text \<open>
  The routines of the library themselves never write into a pooled \<^verbatim>\<open>Entry\<close> or its
  map: as long as no hook of the level and not the formatter writes into the map it
  is handed, a clean pool stays clean over every level-named call on the Logger,
  and over \<^verbatim>\<open>Logger.WithFields\<close> in any case.
\<close>

lemma log_entryPool: "entryPool (fst (log lg ev p depth level msg s)) = entryPool s"
proof -
  obtain b e s1 where lp: "log_prepare lg ev p depth level msg s = (b, e, s1)"
    by (cases "log_prepare lg ev p depth level msg s")
  show ?thesis
    using render_frame [of lg e s1]
    by (simp add: log_result [OF lp] log_prepare_result(6) [OF lp] bufferPool_Put_def emit_def)
qed

lemma clean_entry_frame:
  "ents s' = ents s \<Longrightarrow> fheap s' = fheap s \<Longrightarrow> clean_entry s' p = clean_entry s p"
  by (simp add: clean_entry_def)

lemma clean_entry_grow:
  "clean_entry s p \<Longrightarrow> clean_entry (s\<lparr>fheap := fheap s @ ms, ents := ents s @ es\<rparr>) p"
  by (simp add: clean_entry_def nth_append)

lemma newEntry_clean:
  assumes "pool_clean s"
  shows "clean_entry (snd (newEntry s)) (fst (newEntry s)) \<and> pool_clean (snd (newEntry s))"
proof (cases "entryPool s")
  case Nil
  then show ?thesis
    by (simp add: newEntry_def NewEntry_def Let_def pool_clean_def clean_entry_def
        fresh_entry_def nth_append)
next
  case (Cons p ps)
  then show ?thesis
    using assms by (simp add: newEntry_def pool_clean_def list_all_iff clean_entry_def)
qed

lemma releaseEntry_clean:
  "clean_entry s p \<Longrightarrow> pool_clean s \<Longrightarrow> pool_clean (releaseEntry p s)"
  by (simp add: releaseEntry_def pool_clean_def list_all_iff clean_entry_def)

lemma log_clean:
  assumes "\<forall>h\<in>set (Hooks lg level). \<forall>e m. fst (snd (hfire h e m)) = m"
      and "\<forall>e m. fst (snd (Formatter lg e m)) = m"
  shows "clean_entry (fst (log lg ev p depth level msg s)) q = clean_entry s q"
    and "pool_clean (fst (log lg ev p depth level msg s)) = pool_clean s"
  using log_keeps_fields [OF assms, of ev p depth msg s] log_ents [of lg ev p depth level msg s]
    log_entryPool [of lg ev p depth level msg s]
  by (simp_all add: pool_clean_def list_all_iff clean_entry_def)

lemma Logger_call_state:
  "fst (Logger_call S lg ev msg s) =
     (if Threshold lg \<ge> level_of S
      then (let s2 = fst (log lg ev (fst (newEntry s)) 1 (level_of S) msg (snd (newEntry s)))
            in if S = Fatal \<or> S = Panic then s2 else releaseEntry (fst (newEntry s)) s2)
      else s)"
  by (cases S)
    (simp_all add: Logger_Debug_def Logger_Info_def Logger_Warn_def Logger_Error_def
      Logger_Fatal_def Logger_Panic_def Entry_DebugEx_def Entry_InfoEx_def Entry_WarnEx_def
      Entry_ErrorEx_def Entry_FatalEx_def Entry_PanicEx_def and_then_eq Exit_def panic_def
      log_outcome DebugLevel_def InfoLevel_def WarnLevel_def ErrorLevel_def FatalLevel_def
      PanicLevel_def Let_def split: prod.splits)

lemma pool_stays_clean:
  assumes "pool_clean s"
      and "\<forall>h\<in>set (Hooks lg (level_of S)). \<forall>e m. fst (snd (hfire h e m)) = m"
      and "\<forall>e m. fst (snd (Formatter lg e m)) = m"
  shows "pool_clean (fst (Logger_call S lg ev msg s))"
proof (cases "Threshold lg \<ge> level_of S")
  case False
  then show ?thesis using assms(1) by (simp add: Logger_call_state)
next
  case True
  let ?e = "fst (newEntry s)"
  let ?s1 = "snd (newEntry s)"
  let ?s2 = "fst (log lg ev ?e 1 (level_of S) msg ?s1)"
  have n: "clean_entry ?s1 ?e" "pool_clean ?s1"
    using newEntry_clean [OF assms(1)] by simp_all
  have l: "clean_entry ?s2 ?e" "pool_clean ?s2"
    using n log_clean [OF assms(2) assms(3)] by simp_all
  then have "pool_clean (releaseEntry ?e ?s2)"
    by (rule releaseEntry_clean)
  then show ?thesis
    using True l(2) by (simp add: Logger_call_state Let_def)
qed

lemma pool_stays_clean_attach:
  assumes "pool_clean s"
  shows "pool_clean (snd (Logger_WithFields m s))"
proof -
  let ?e = "fst (newEntry s)"
  let ?s1 = "snd (newEntry s)"
  have n: "clean_entry ?s1 ?e" "pool_clean ?s1"
    using newEntry_clean [OF assms] by simp_all
  obtain r s2 where w: "Entry_WithFields ?e m ?s1 = (r, s2)"
    by (cases "Entry_WithFields ?e m ?s1")
  then have s2: "s2 = ?s1\<lparr>fheap := fheap ?s1 @ [fields_of s2 r], ents := ents ?s1 @ [fresh_entry (length (fheap ?s1))]\<rparr>"
    by (auto simp: Entry_WithFields_def Let_def fields_of_def fresh_entry_def)
  have "clean_entry s2 p" if "clean_entry ?s1 p" for p
    using clean_entry_grow [OF that, where ms = "[fields_of s2 r]"
        and es = "[fresh_entry (length (fheap ?s1))]"] s2
    by simp
  moreover have "entryPool s2 = entryPool ?s1"
    using w by (auto simp: Entry_WithFields_def Let_def)
  ultimately have "clean_entry s2 ?e" "pool_clean s2"
    using n by (simp_all add: pool_clean_def list_all_iff)
  then have "pool_clean (releaseEntry ?e s2)"
    by (rule releaseEntry_clean)
  then show ?thesis
    using w by (cases "newEntry s") (simp add: Logger_WithFields_def)
qed


end
